theory Spec2Isabelle
  imports Main "HOL-Library.AList"
begin

section \<open>Python values: strings, errors, listings\<close>

text \<open>
  A Python \<open>str\<close> is a sequence of Unicode code points; it is modelled as the list of
  their numbers, so that \<open>len\<close>, \<open>in\<close>, \<open>split\<close> and \<open>strip\<close> count what Python
  counts. An ASCII literal of the source is written \<open>py ''...''\<close>.
\<close>

type_synonym pystr = "nat list"

definition py :: "string \<Rightarrow> pystr" where
  "py s = map of_char s"

text \<open>
  \<open>str.isspace\<close> on one code point: the characters CPython's
  \<open>_PyUnicode_IsWhitespace\<close> accepts. \<open>str.split()\<close> and \<open>str.strip()\<close> use
  the same set.
\<close>

definition isspace :: "nat \<Rightarrow> bool" where
  "isspace c \<longleftrightarrow>
     (9 \<le> c \<and> c \<le> 13) \<or> (28 \<le> c \<and> c \<le> 32) \<or> c = 133 \<or> c = 160 \<or> c = 5760 \<or>
     (8192 \<le> c \<and> c \<le> 8202) \<or> c = 8232 \<or> c = 8233 \<or> c = 8239 \<or> c = 8287 \<or> c = 12288"

datatype py_error = IndexError | KeyError | ValueError | TimeoutError | OtherError pystr

text \<open>\<open>s.startswith(p)\<close>.\<close>

fun startswith :: "pystr \<Rightarrow> pystr \<Rightarrow> bool" where
  "startswith s [] = True"
| "startswith [] (p # ps) = False"
| "startswith (c # cs) (p # ps) = (c = p \<and> startswith cs ps)"

text \<open>\<open>sub in s\<close>: \<open>sub\<close> occurs in \<open>s\<close> as a contiguous run.\<close>

fun contains :: "pystr \<Rightarrow> pystr \<Rightarrow> bool" where
  "contains sub [] = (sub = [])"
| "contains sub (c # cs) = (startswith (c # cs) sub \<or> contains sub cs)"

text \<open>
  \<open>s.replace(old, new)\<close> for a non-empty \<open>old\<close> (the source passes the literals
  \<open>'</'\<close> and \<open>'>'\<close>): the occurrences are replaced from the left, without overlap.
\<close>

function replace :: "pystr \<Rightarrow> pystr \<Rightarrow> pystr \<Rightarrow> pystr" where
  "replace old new s =
     (if old \<noteq> [] \<and> startswith s old then new @ replace old new (drop (length old) s)
      else case s of [] \<Rightarrow> [] | c # cs \<Rightarrow> c # replace old new cs)"
  by pat_completeness auto
termination
proof (relation "measure (\<lambda>(old, new, s). length s)")
  show "wf (measure (\<lambda>(old, new, s). length s))" by simp
next
  fix old new :: pystr and s :: pystr
  assume "old \<noteq> [] \<and> startswith s old"
  then have "s \<noteq> []" by (cases s; cases old) auto
  with \<open>old \<noteq> [] \<and> startswith s old\<close>
  show "((old, new, drop (length old) s), (old, new, s)) \<in> measure (\<lambda>(old, new, s). length s)"
    by simp
next
  fix old new s :: pystr and c cs
  assume "s = c # cs"
  then show "((old, new, cs), (old, new, s)) \<in> measure (\<lambda>(old, new, s). length s)"
    by simp
qed

declare replace.simps [simp del]

text \<open>
  \<open>s.split()\<close> with no argument: the maximal runs of non-whitespace characters, in
  order; leading and trailing whitespace gives no empty string.
\<close>

function split :: "pystr \<Rightarrow> pystr list" where
  "split s =
     (let t = dropWhile isspace s
      in if t = [] then []
         else takeWhile (\<lambda>c. \<not> isspace c) t # split (dropWhile (\<lambda>c. \<not> isspace c) t))"
  by pat_completeness auto
termination
proof (relation "measure length")
  show "wf (measure length)" by simp
next
  fix s t :: pystr
  assume t: "t = dropWhile isspace s" and ne: "t \<noteq> []"
  from ne have "\<not> isspace (hd t)"
    unfolding t by (rule hd_dropWhile)
  with ne have "length (dropWhile (\<lambda>c. \<not> isspace c) t) < length t"
    by (cases t) (auto intro: le_imp_less_Suc length_dropWhile_le)
  also have "length t \<le> length s"
    unfolding t by (rule length_dropWhile_le)
  finally show "(dropWhile (\<lambda>c. \<not> isspace c) t, s) \<in> measure length"
    by simp
qed

declare split.simps [simp del]

text \<open>\<open>s.strip()\<close>: leading and trailing whitespace removed.\<close>

definition strip :: "pystr \<Rightarrow> pystr" where
  "strip s = rev (dropWhile isspace (rev (dropWhile isspace s)))"

section \<open>\<open>clean_url\<close>\<close>

text \<open>
  \<open>sxsapi_scraper.clean_url\<close> and \<open>yuanjisong_scraper.clean_url\<close> are the same
  function up to the literal of the platform's base URL, which is the first argument
  here. \<open>url.split()[0]\<close> raises \<open>IndexError\<close> when \<open>split\<close> returns the empty list.
\<close>

definition clean_url :: "pystr \<Rightarrow> pystr \<Rightarrow> py_error + pystr" where
  "clean_url base url =
     (case split url of
        [] \<Rightarrow> Inl IndexError
      | tok # _ \<Rightarrow>
          (let u = replace (py ''>'') [] (replace (py ''</'') [] tok)
           in if contains (py ''javascript:'') u then Inr []
              else if \<not> startswith u (py ''http'') then Inr (base @ u)
              else Inr u))"

definition sxsapi_base :: pystr where
  "sxsapi_base = py ''https://sxsapi.com''"

definition yuanjisong_base :: pystr where
  "yuanjisong_base = py ''https://www.yuanjisong.com''"

section \<open>Listings and the output file\<close>

text \<open>
  A listing is a Python \<open>dict\<close> from field names to values. It is an association
  list in insertion order, as Python keeps it and as \<open>json.dump\<close> writes it; the
  values the scrapers store are strings, integers and \<open>None\<close>.
\<close>

datatype pyval = PStr pystr | PInt int | PNone

type_synonym dict = "(string \<times> pyval) list"

text \<open>\<open>d.keys()\<close>, \<open>k in d\<close> and \<open>d.get(k)\<close> (\<open>None\<close> for a missing key).\<close>

definition keys :: "dict \<Rightarrow> string set" where
  "keys d = fst ` set d"

definition has_key :: "dict \<Rightarrow> string \<Rightarrow> bool" where
  "has_key d k = (map_of d k \<noteq> None)"

definition get :: "dict \<Rightarrow> string \<Rightarrow> pyval" where
  "get d k = (case map_of d k of None \<Rightarrow> PNone | Some v \<Rightarrow> v)"

text \<open>
  \<open>d[k] = v\<close> is \<^const>\<open>AList.update\<close>: the value of an existing key is replaced in
  place, a new key goes to the end. \<open>project.update(details)\<close> stores the items of
  \<open>details\<close> one after the other.
\<close>

definition update :: "dict \<Rightarrow> dict \<Rightarrow> dict" where
  "update project details = fold (\<lambda>(k, v). AList.update k v) details project"

text \<open>
  The state of a scraper that the claims are about: the contents of its JSON output
  file \<open>output_dir/<platform>.json\<close>, \<open>None\<close> before the first write.
\<close>

record scraper_state =
  output_file :: "dict list option"

text \<open>
  \<open>BaseScraper.save_results\<close>: opens the output file with mode \<open>'w'\<close> and dumps
  \<open>results\<close>; any exception is caught and logged. Whether the write succeeds is the
  environment's choice \<open>ok\<close>; a failed write is taken to fail at \<open>open\<close>, which leaves
  the file as it was.
\<close>

definition save_results :: "bool \<Rightarrow> dict list \<Rightarrow> scraper_state \<Rightarrow> scraper_state" where
  "save_results ok results st = (if ok then st\<lparr>output_file := Some results\<rparr> else st)"

section \<open>The page fetches\<close>

text \<open>
  What \<open>crawler.arun\<close> of the external library crawl4ai gives back: it raises, or it
  returns a result object (possibly a falsy one, which the source tests for) with the
  fields the scrapers read. An empty \<open>html\<close> or \<open>markdown\<close> stands for \<open>''\<close> and for
  \<open>None\<close>, which the source does not tell apart (\<open>not result.markdown\<close>).
\<close>

record crawl_result =
  success :: bool
  html :: pystr
  markdown :: pystr

datatype arun = Raises py_error | Returns "crawl_result option"

text \<open>
  The environment of one page cycle: the outcome of the fetch of the list page, of the
  fetch of the detail page of the \<open>i\<close>-th candidate, and of the write of the output file
  at the end of \<open>scrape_page\<close>.
\<close>

record page_env =
  list_page :: arun
  detail_page :: "nat \<Rightarrow> arun"
  write_ok :: bool

text \<open>
  For yuanjisong the detail fetches run as concurrent tasks under an aggregate deadline
  of \<open>10 * len(projects)\<close> seconds: \<open>finished i\<close> says whether the task of the
  \<open>i\<close>-th candidate has completed when the deadline expires.
\<close>

record y_page_env = page_env +
  finished :: "nat \<Rightarrow> bool"

section \<open>\<open>SxsapiScraper.scrape_page\<close>\<close>

text \<open>
  The extractors are parameters of the page cycle: \<open>xl\<close> is \<open>extract_project_links\<close>
  applied to the fetched list markup (an exception it raises is \<open>Inl\<close>) and \<open>xd\<close> is
  \<open>extract_project_details\<close> applied to the fetched detail markup.

  The body of the loop over the candidates, lines 150--179: what is appended to
  \<open>detailed_projects\<close> for one candidate. \<open>project['url']\<close> is read to start the fetch
  and again in the handler's log message, so a candidate without that key makes the
  handler itself raise \<open>KeyError\<close>, which leaves \<open>scrape_page\<close>.
\<close>

definition sx_enrich :: "(pystr \<Rightarrow> dict) \<Rightarrow> dict \<Rightarrow> arun \<Rightarrow> py_error + dict option" where
  "sx_enrich xd project detail_result =
     (if \<not> has_key project ''url'' then Inl KeyError
      else (case detail_result of
              Raises e \<Rightarrow> Inr (Some project)
            | Returns None \<Rightarrow> Inr (Some project)
            | Returns (Some r) \<Rightarrow>
                if markdown r \<noteq> [] then
                  (let details = xd (markdown r)
                   in if details \<noteq> [] then Inr (Some (update project details)) else Inr None)
                else Inr (Some project)))"

fun sx_detail_loop ::
  "(pystr \<Rightarrow> dict) \<Rightarrow> (nat \<Rightarrow> arun) \<Rightarrow> nat \<Rightarrow> dict list \<Rightarrow> dict list \<Rightarrow> py_error + dict list"
where
  "sx_detail_loop xd fetch i detailed_projects [] = Inr detailed_projects"
| "sx_detail_loop xd fetch i detailed_projects (project # rest) =
     (case sx_enrich xd project (fetch i) of
        Inl e \<Rightarrow> Inl e
      | Inr None \<Rightarrow> sx_detail_loop xd fetch (Suc i) detailed_projects rest
      | Inr (Some p) \<Rightarrow> sx_detail_loop xd fetch (Suc i) (detailed_projects @ [p]) rest)"

definition sx_scrape_page ::
  "(pystr \<Rightarrow> py_error + dict list) \<Rightarrow> (pystr \<Rightarrow> dict) \<Rightarrow> (nat \<Rightarrow> page_env) \<Rightarrow>
   nat \<Rightarrow> scraper_state \<Rightarrow> (py_error + dict list) \<times> scraper_state"
where
  "sx_scrape_page xl xd env page st =
     (case list_page (env page) of
        Raises e \<Rightarrow> (Inl e, st)
      | Returns None \<Rightarrow> (Inr [], st)
      | Returns (Some result) \<Rightarrow>
          if markdown result = [] then (Inr [], st)
          else (case xl (markdown result) of
                  Inl e \<Rightarrow> (Inl e, st)
                | Inr projects \<Rightarrow>
                    (case sx_detail_loop xd (detail_page (env page)) 0 [] projects of
                       Inl e \<Rightarrow> (Inl e, st)
                     | Inr detailed_projects \<Rightarrow>
                         (Inr detailed_projects,
                          save_results (write_ok (env page)) detailed_projects st))))"

section \<open>\<open>YuanjisongScraper.scrape_page\<close>\<close>

text \<open>
  \<open>YuanjisongScraper._scrape_detail_page\<close>: the fetch runs under \<open>asyncio.wait_for\<close>
  with a timeout of 30 seconds, whose \<open>TimeoutError\<close> is one of the exceptions
  \<open>Raises\<close> stands for. Every exception is caught, but the handler's log message reads
  \<open>project['url']\<close> again: for a candidate without that key the task ends with
  \<open>KeyError\<close>.
\<close>

definition y_scrape_detail_page :: "(pystr \<Rightarrow> dict) \<Rightarrow> dict \<Rightarrow> arun \<Rightarrow> py_error + dict" where
  "y_scrape_detail_page xd project detail_result =
     (if \<not> has_key project ''url'' then Inl KeyError
      else (case detail_result of
              Raises e \<Rightarrow> Inr project
            | Returns None \<Rightarrow> Inr project
            | Returns (Some r) \<Rightarrow>
                if success r then
                  (if html r \<noteq> [] then
                     (let details = xd (html r)
                      in if details \<noteq> [] then Inr (update project details) else Inr project)
                   else Inr project)
                else Inr project))"

text \<open>
  The tasks of one page, in the order of the candidates, numbered from \<open>i\<close>: what each
  task returns (\<open>asyncio.gather\<close> with \<open>return_exceptions=True\<close> hands an exception
  over as a value).
\<close>

fun detail_tasks ::
  "(pystr \<Rightarrow> dict) \<Rightarrow> (nat \<Rightarrow> arun) \<Rightarrow> nat \<Rightarrow> dict list \<Rightarrow> (py_error + dict) list"
where
  "detail_tasks xd fetch i [] = []"
| "detail_tasks xd fetch i (project # rest) =
     y_scrape_detail_page xd project (fetch i) # detail_tasks xd fetch (Suc i) rest"

text \<open>
  Lines 441--445: the results of the completed fan-out; an exception is logged and a
  falsy result (the empty dict) is skipped.
\<close>

fun process_results :: "(py_error + dict) list \<Rightarrow> dict list" where
  "process_results [] = []"
| "process_results (Inl e # rest) = process_results rest"
| "process_results (Inr result # rest) =
     (if result \<noteq> [] then result # process_results rest else process_results rest)"

text \<open>
  The candidates as they stand when the aggregate deadline expires:
  \<open>project.update(details)\<close> changes the candidate's own dict, so a candidate whose
  task has completed carries its detail fields, and every other one is as discovery
  left it.
\<close>

fun projects_at_deadline ::
  "(pystr \<Rightarrow> dict) \<Rightarrow> (nat \<Rightarrow> arun) \<Rightarrow> (nat \<Rightarrow> bool) \<Rightarrow> nat \<Rightarrow> dict list \<Rightarrow> dict list"
where
  "projects_at_deadline xd fetch fin i [] = []"
| "projects_at_deadline xd fetch fin i (project # rest) =
     (if fin i then (case y_scrape_detail_page xd project (fetch i) of
                       Inl e \<Rightarrow> project
                     | Inr p \<Rightarrow> p)
      else project) # projects_at_deadline xd fetch fin (Suc i) rest"

text \<open>
  Lines 447--452, the handler of the aggregate \<open>TimeoutError\<close>: every candidate is
  appended unless a record with its URL is already in \<open>detailed_projects\<close>. The
  generator inside \<open>any\<close> reads \<open>project['url']\<close> once for each record already there,
  so a missing key raises \<open>KeyError\<close> only when the list is not empty.
\<close>

fun timeout_fill :: "dict list \<Rightarrow> dict list \<Rightarrow> py_error + dict list" where
  "timeout_fill detailed_projects [] = Inr detailed_projects"
| "timeout_fill detailed_projects (project # rest) =
     (if detailed_projects = [] then timeout_fill [project] rest
      else if \<not> has_key project ''url'' then Inl KeyError
      else if list_ex (\<lambda>d. get d ''url'' = get project ''url'') detailed_projects
           then timeout_fill detailed_projects rest
      else timeout_fill (detailed_projects @ [project]) rest)"

text \<open>
  \<open>asyncio.wait_for\<close> raises \<open>TimeoutError\<close> when the gathered tasks are not all done
  at the deadline. Every exception inside the page cycle is caught by the outer
  handler, which returns the empty list without writing the file.
\<close>

definition y_scrape_page ::
  "(pystr \<Rightarrow> py_error + dict list) \<Rightarrow> (pystr \<Rightarrow> dict) \<Rightarrow> (nat \<Rightarrow> y_page_env) \<Rightarrow>
   nat \<Rightarrow> scraper_state \<Rightarrow> (py_error + dict list) \<times> scraper_state"
where
  "y_scrape_page xl xd env page st =
     (case list_page (env page) of
        Raises e \<Rightarrow> (Inr [], st)
      | Returns None \<Rightarrow> (Inr [], st)
      | Returns (Some result) \<Rightarrow>
          if html result = [] then (Inr [], st)
          else (case xl (html result) of
                  Inl e \<Rightarrow> (Inr [], st)
                | Inr projects \<Rightarrow>
                    if list_all (finished (env page)) [0..<length projects] then
                      (let detailed_projects =
                             process_results (detail_tasks xd (detail_page (env page)) 0 projects)
                       in (Inr detailed_projects,
                           save_results (write_ok (env page)) detailed_projects st))
                    else
                      (case timeout_fill []
                              (projects_at_deadline xd (detail_page (env page))
                                 (finished (env page)) 0 projects) of
                         Inl e \<Rightarrow> (Inr [], st)
                       | Inr detailed_projects \<Rightarrow>
                           (Inr detailed_projects,
                            save_results (write_ok (env page)) detailed_projects st))))"

section \<open>\<open>scrape\<close>: the pagination loop\<close>

text \<open>
  \<open>SxsapiScraper.scrape\<close> and \<open>YuanjisongScraper.scrape\<close> are the same code around
  their own \<open>scrape_page\<close>, the parameter \<open>sp\<close>. The loop is \<open>while True\<close> and need
  not end, so it is a partial function: \<open>None\<close> is a run that never leaves the loop.
  Besides \<open>all_jobs\<close> the model keeps the list \<open>pages\<close> of the page numbers
  \<open>scrape_page\<close> was called with. \<open>max_pages\<close> is any Python integer; \<open>page\<close> starts
  at 1 and only grows. The pause between two pages changes nothing the model keeps.
\<close>

partial_function (option) scrape_loop ::
  "(nat \<Rightarrow> scraper_state \<Rightarrow> (py_error + dict list) \<times> scraper_state) \<Rightarrow> int \<Rightarrow>
   nat \<Rightarrow> dict list \<Rightarrow> nat list \<Rightarrow> scraper_state \<Rightarrow> (dict list \<times> nat list \<times> scraper_state) option"
where
  "scrape_loop sp max_pages page all_jobs pages st =
     (case sp page st of
        (Inl e, st') \<Rightarrow> Some (all_jobs, pages @ [page], st')
      | (Inr projects, st') \<Rightarrow>
          if projects = [] then Some (all_jobs, pages @ [page], st')
          else if max_pages \<noteq> 0 \<and> int page \<ge> max_pages
               then Some (all_jobs @ projects, pages @ [page], st')
          else scrape_loop sp max_pages (page + 1) (all_jobs @ projects) (pages @ [page]) st')"

text \<open>
  After the loop \<open>scrape\<close> dumps \<open>all_jobs\<close> into
  \<open>Path(config.output_dir) / f"{platform_name}.json"\<close>, the file \<open>save_results\<close>
  writes (the constructor passes \<open>config.output_dir\<close> on), with the same handling of
  a failure; \<open>final_ok\<close> says whether this write succeeds.
\<close>

definition scrape ::
  "(nat \<Rightarrow> scraper_state \<Rightarrow> (py_error + dict list) \<times> scraper_state) \<Rightarrow> int \<Rightarrow> bool \<Rightarrow>
   scraper_state \<Rightarrow> (dict list \<times> nat list \<times> scraper_state) option"
where
  "scrape sp max_pages final_ok st =
     (case scrape_loop sp max_pages 1 [] [] st of
        None \<Rightarrow> None
      | Some (all_jobs, pages, st') \<Rightarrow> Some (all_jobs, pages, save_results final_ok all_jobs st'))"

text \<open>
  What one call of \<open>scrape_page\<close> contributes to \<open>all_jobs\<close>, and whether it ends
  the loop on its own: \<open>scrape\<close> leaves the loop when \<open>scrape_page\<close> raises (the
  exception is caught and logged) and when it returns an empty list.
\<close>

definition listings :: "py_error + dict list \<Rightarrow> dict list" where
  "listings x = (case x of Inl e \<Rightarrow> [] | Inr ps \<Rightarrow> ps)"

definition stops :: "py_error + dict list \<Rightarrow> bool" where
  "stops x = (case x of Inl e \<Rightarrow> True | Inr ps \<Rightarrow> ps = [])"

section \<open>A sample site\<close>

text \<open>
  Concrete inputs on which the theorems below are run: two candidates, extractors that
  know three markups, and a site with two pages of one candidate each, whose detail
  pages all carry \<open>duration: 5 days\<close>.
\<close>

definition job1 :: dict where
  "job1 = [(''title'', PStr (py ''Build a widget'')),
           (''url'', PStr (py ''https://sxsapi.com/post/1'')),
           (''price'', PStr (py ''100''))]"

definition job2 :: dict where
  "job2 = [(''title'', PStr (py ''Fix a parser'')),
           (''url'', PStr (py ''https://sxsapi.com/post/2'')),
           (''price'', PStr (py ''200''))]"

definition demo_links :: "pystr \<Rightarrow> py_error + dict list" where
  "demo_links md =
     (if md = py ''page one'' then Inr [job1]
      else if md = py ''page two'' then Inr [job2] else Inr [])"

definition demo_details :: "pystr \<Rightarrow> dict" where
  "demo_details md =
     (if md = py ''duration: 5 days'' then [(''duration'', PStr (py ''5 days''))] else [])"

definition fetched :: "pystr \<Rightarrow> arun" where
  "fetched text = Returns (Some \<lparr>success = True, html = text, markdown = text\<rparr>)"

definition demo_env :: "nat \<Rightarrow> page_env" where
  "demo_env page =
     \<lparr>list_page = fetched (if page = 1 then py ''page one''
                           else if page = 2 then py ''page two'' else py ''no more''),
      detail_page = (\<lambda>i. fetched (py ''duration: 5 days'')),
      write_ok = True\<rparr>"

definition st0 :: scraper_state where
  "st0 = \<lparr>output_file = None\<rparr>"

text \<open>
  The same site seen by the yuanjisong scraper, with every detail task done before the
  deadline, and a site that never runs out of pages.
\<close>

definition y_demo_env :: "nat \<Rightarrow> y_page_env" where
  "y_demo_env page =
     \<lparr>list_page = fetched (if page = 1 then py ''page one''
                           else if page = 2 then py ''page two'' else py ''no more''),
      detail_page = (\<lambda>i. fetched (py ''duration: 5 days'')),
      write_ok = True,
      finished = (\<lambda>i. True)\<rparr>"

definition endless_env :: "nat \<Rightarrow> page_env" where
  "endless_env page =
     \<lparr>list_page = fetched (py ''page one''),
      detail_page = (\<lambda>i. Raises TimeoutError),
      write_ok = True\<rparr>"

definition detailed :: "dict \<Rightarrow> dict" where
  "detailed job = job @ [(''duration'', PStr (py ''5 days''))]"

text \<open>
  More sample inputs: a detail extractor that finds a title and a duration whatever the
  markup; a site whose detail pages carry nothing the sample extractor knows; two
  candidates that share one URL; and a page of two candidates on which only the first
  detail task is done when the deadline expires.
\<close>

definition retitled :: "pystr \<Rightarrow> dict" where
  "retitled md = [(''title'', PStr (py ''Build a widget (urgent)'')), (''duration'', PInt 5)]"

definition job1_retitled :: dict where
  "job1_retitled = [(''title'', PStr (py ''Build a widget (urgent)'')),
                    (''url'', PStr (py ''https://sxsapi.com/post/1'')),
                    (''price'', PStr (py ''100'')),
                    (''duration'', PInt 5)]"

definition drop_env :: "nat \<Rightarrow> page_env" where
  "drop_env page =
     \<lparr>list_page = fetched (py ''page one''),
      detail_page = (\<lambda>i. fetched (py ''hello'')),
      write_ok = True\<rparr>"

definition y_drop_env :: "nat \<Rightarrow> y_page_env" where
  "y_drop_env page =
     \<lparr>list_page = fetched (py ''page one''),
      detail_page = (\<lambda>i. fetched (py ''hello'')),
      write_ok = True,
      finished = (\<lambda>i. True)\<rparr>"

definition dupA :: dict where
  "dupA = [(''title'', PStr (py ''Job A'')),
           (''url'', PStr (py ''https://www.yuanjisong.com/job/7''))]"

definition dupB :: dict where
  "dupB = [(''title'', PStr (py ''Job B'')),
           (''url'', PStr (py ''https://www.yuanjisong.com/job/7''))]"

definition dup_links :: "pystr \<Rightarrow> py_error + dict list" where
  "dup_links page_html = Inr [dupA, dupB]"

definition pair_links :: "pystr \<Rightarrow> py_error + dict list" where
  "pair_links page_html = Inr [job1, job2]"

definition late_env :: "nat \<Rightarrow> y_page_env" where
  "late_env page =
     \<lparr>list_page = fetched (py ''two blocks''),
      detail_page = (\<lambda>i. fetched (py ''duration: 5 days'')),
      write_ok = True,
      finished = (\<lambda>i. i = 0)\<rparr>"

section \<open>\<open>BaseScraper._make_request\<close>\<close>

text \<open>
  What one \<open>session.get\<close> runs into: a response with a status and a body, or an
  exception (a transport error, a time-out, a failure while the body is read). The
  state is whether the scraper holds an open session, and the log of what the helper
  did: sessions opened and closed, requests sent, pauses (in seconds), and the
  messages it logged. \<open>init_session\<close> is taken not to raise: \<open>_get_proxy\<close> catches
  every exception and building a \<open>ClientSession\<close> does no I/O.
\<close>

datatype response = Response int pystr | Fails py_error

datatype event = Init | Get | Close | Sleep nat | Warning int | Error py_error

record client =
  session :: bool
  events :: "event list"

definition log :: "event \<Rightarrow> client \<Rightarrow> client" where
  "log e st = st\<lparr>events := events st @ [e]\<rparr>"

definition init_session :: "client \<Rightarrow> client" where
  "init_session st = (if \<not> session st then log Init (st\<lparr>session := True\<rparr>) else st)"

definition close_session :: "client \<Rightarrow> client" where
  "close_session st = (if session st then log Close (st\<lparr>session := False\<rparr>) else st)"

text \<open>
  The body of the \<open>try\<close> statement with its handler, lines 97--111: the text of a
  response with status 200 is returned at once; any other status is logged as a
  warning; an exception is logged and the session is closed.
\<close>

definition request_once :: "response \<Rightarrow> client \<Rightarrow> pystr option \<times> client" where
  "request_once resp st =
     (let st1 = (if \<not> session st then init_session st else st);
          st2 = log Get st1
      in case resp of
           Response status text \<Rightarrow>
             if status = 200 then (Some text, st2) else (None, log (Warning status) st2)
         | Fails e \<Rightarrow> (None, close_session (log (Error e) st2)))"

text \<open>
  \<open>for attempt in range(3)\<close>, from \<open>attempt\<close> on: after a failed attempt other than
  the last the helper sleeps \<open>2 * (attempt + 1)\<close> seconds. When the loop runs out the
  helper returns \<open>None\<close>.
\<close>

function make_request_from :: "(nat \<Rightarrow> response) \<Rightarrow> nat \<Rightarrow> client \<Rightarrow> pystr option \<times> client" where
  "make_request_from env attempt st =
     (if attempt < 3 then
        (case request_once (env attempt) st of
           (Some text, st') \<Rightarrow> (Some text, st')
         | (None, st') \<Rightarrow>
             make_request_from env (attempt + 1)
               (if attempt < 2 then log (Sleep (2 * (attempt + 1))) st' else st'))
      else (None, st))"
  by pat_completeness auto
termination
  by (relation "measure (\<lambda>(env, attempt, st). 3 - attempt)") auto

declare make_request_from.simps [simp del]

definition make_request :: "(nat \<Rightarrow> response) \<Rightarrow> client \<Rightarrow> pystr option \<times> client" where
  "make_request env st = make_request_from env 0 st"

text \<open>
  An attempt succeeds when the response has status 200; \<open>sleeps\<close> and \<open>gets\<close> read
  the pauses and the number of requests off a log.
\<close>

definition succeeds :: "response \<Rightarrow> bool" where
  "succeeds resp = (case resp of Response status text \<Rightarrow> status = 200 | Fails e \<Rightarrow> False)"

definition sleeps :: "event list \<Rightarrow> nat list" where
  "sleeps es = concat (map (\<lambda>e. case e of Sleep n \<Rightarrow> [n] | _ \<Rightarrow> []) es)"

definition gets :: "event list \<Rightarrow> nat" where
  "gets es = length (filter (\<lambda>e. e = Get) es)"

section \<open>Discovery: \<open>extract_project_links\<close>\<close>

text \<open>
  More of \<open>str\<close>: \<open>s.split(sep)\<close> for a one-character separator, which keeps empty
  pieces; \<open>s.split(sep, 1)[1]\<close>, the text after the first occurrence of \<open>sep\<close>, which
  raises \<open>IndexError\<close> (here \<open>None\<close>) when there is none; and \<open>s.rstrip(chars)\<close> for
  one character.
\<close>

fun split_on :: "nat \<Rightarrow> pystr \<Rightarrow> pystr list" where
  "split_on sep [] = [[]]"
| "split_on sep (c # cs) =
     (if c = sep then [] # split_on sep cs
      else (case split_on sep cs of
              [] \<Rightarrow> [[c]]
            | piece # pieces \<Rightarrow> (c # piece) # pieces))"

fun after_first :: "pystr \<Rightarrow> pystr \<Rightarrow> pystr option" where
  "after_first sep [] = None"
| "after_first sep (c # cs) =
     (if startswith (c # cs) sep then Some (drop (length sep) (c # cs))
      else after_first sep cs)"

definition rstrip_char :: "nat \<Rightarrow> pystr \<Rightarrow> pystr" where
  "rstrip_char c s = rev (dropWhile (\<lambda>x. x = c) (rev s))"

text \<open>Running fallible steps one after the other: the first exception ends the run.\<close>

definition bind :: "py_error + 'a \<Rightarrow> ('a \<Rightarrow> py_error + 'b) \<Rightarrow> py_error + 'b" where
  "bind m f = (case m of Inl e \<Rightarrow> Inl e | Inr x \<Rightarrow> f x)"

subsection \<open>yuanjisong: structural blocks\<close>

text \<open>
  \<open>YuanjisongScraper.extract_project_links\<close> reads the page through BeautifulSoup, an
  external library. A project container is modelled by what the queries of the source
  give on it: its \<open><a>\<close> elements in document order, each with its \<open>href\<close> attribute
  and the text of its first \<open><b>\<close> and \<open><span>\<close>; the stripped text of the first
  \<open>p.margin_bottom_10\<close>; for the first \<open>span.glyphicon-time\<close>, the stripped text of
  the \<open><p>\<close> around it (\<open>Some None\<close> when no \<open><p>\<close> is around it); and the text of
  the first \<open>span.rixin-text-jobs\<close> and \<open>i.i_post_num\<close>.
\<close>

record anchor =
  href :: "pystr option"
  bold :: "pystr option"
  span :: "pystr option"

record container =
  anchors :: "anchor list"
  desc_elem :: "pystr option"
  duration_elem :: "pystr option option"
  price_elem :: "pystr option"
  applicants_elem :: "pystr option"

text \<open>
  \<open>container.find('a', href=lambda x: x and part in x)\<close>: the first link whose
  \<open>href\<close> is there, is not empty and contains \<open>part\<close>, with that \<open>href\<close>.
\<close>

fun find_link :: "pystr \<Rightarrow> anchor list \<Rightarrow> (pystr \<times> anchor) option" where
  "find_link part [] = None"
| "find_link part (a # rest) =
     (case href a of
        None \<Rightarrow> find_link part rest
      | Some x \<Rightarrow> if x \<noteq> [] \<and> contains part x then Some (x, a) else find_link part rest)"

text \<open>The steps of the loop body, in the order of the source (lines 114--160).\<close>

definition y_title_and_url :: "container \<Rightarrow> dict \<Rightarrow> py_error + dict" where
  "y_title_and_url c project =
     (case find_link (py ''/job/'') (anchors c) of
        None \<Rightarrow> Inr project
      | Some (x, title_link) \<Rightarrow>
          bind (clean_url yuanjisong_base x) (\<lambda>url.
            let project = AList.update ''url'' (PStr url) project
            in case bold title_link of
                 None \<Rightarrow> Inr project
               | Some text \<Rightarrow> Inr (AList.update ''title'' (PStr (strip text)) project)))"

definition y_labelled :: "string \<Rightarrow> pystr \<Rightarrow> pystr \<Rightarrow> dict \<Rightarrow> py_error + dict" where
  "y_labelled key label text project =
     (if contains label text then
        (case after_first label text of
           None \<Rightarrow> Inl IndexError
         | Some rest \<Rightarrow> Inr (AList.update key (PStr (strip rest)) project))
      else Inr project)"

definition y_description :: "container \<Rightarrow> dict \<Rightarrow> py_error + dict" where
  "y_description c project =
     (case desc_elem c of
        None \<Rightarrow> Inr project
      | Some desc_text \<Rightarrow> y_labelled ''description'' [25551, 36848, 65306] desc_text project)"

definition y_duration :: "container \<Rightarrow> dict \<Rightarrow> py_error + dict" where
  "y_duration c project =
     (case duration_elem c of
        None \<Rightarrow> Inr project
      | Some None \<Rightarrow> Inr project
      | Some (Some duration_text) \<Rightarrow>
          y_labelled ''duration'' [24037, 26102, 65306] duration_text project)"

text \<open>
  \<open>int(elem.text.strip())\<close> with the default 0 on \<open>ValueError\<close>. Python's \<open>int\<close> on
  a string is the parameter \<open>int_of\<close>, \<open>None\<close> when it raises.
\<close>

definition y_counter ::
  "(pystr \<Rightarrow> int option) \<Rightarrow> string \<Rightarrow> pystr option \<Rightarrow> dict \<Rightarrow> dict" where
  "y_counter int_of key elem project =
     (case elem of
        None \<Rightarrow> project
      | Some text \<Rightarrow>
          (case int_of (strip text) of
             Some n \<Rightarrow> AList.update key (PInt n) project
           | None \<Rightarrow> AList.update key (PInt 0) project))"

definition y_employer :: "container \<Rightarrow> dict \<Rightarrow> py_error + dict" where
  "y_employer c project =
     (case find_link (py ''/employer/'') (anchors c) of
        None \<Rightarrow> Inr project
      | Some (x, employer_link) \<Rightarrow>
          bind (clean_url yuanjisong_base x) (\<lambda>url.
            let project = AList.update ''employer_url'' (PStr url) project
            in case span employer_link of
                 None \<Rightarrow> Inr project
               | Some text \<Rightarrow> Inr (AList.update ''employer_name'' (PStr (strip text)) project)))"

definition y_project :: "(pystr \<Rightarrow> int option) \<Rightarrow> container \<Rightarrow> py_error + dict" where
  "y_project int_of c =
     bind (y_title_and_url c []) (\<lambda>project.
     bind (y_description c project) (\<lambda>project.
     bind (y_duration c project) (\<lambda>project.
       y_employer c
         (y_counter int_of ''applicants'' (applicants_elem c)
           (y_counter int_of ''price'' (price_elem c) project)))))"

text \<open>
  The loop over the containers: an exception inside the body is caught and the container
  is skipped; a project is appended only when it has both keys \<open>url\<close> and \<open>title\<close>.
\<close>

fun y_extract_project_links :: "(pystr \<Rightarrow> int option) \<Rightarrow> container list \<Rightarrow> dict list" where
  "y_extract_project_links int_of [] = []"
| "y_extract_project_links int_of (c # rest) =
     (case y_project int_of c of
        Inl e \<Rightarrow> y_extract_project_links int_of rest
      | Inr project \<Rightarrow>
          if has_key project ''url'' \<and> has_key project ''title''
          then project # y_extract_project_links int_of rest
          else y_extract_project_links int_of rest)"

subsection \<open>sxsapi: line scanning\<close>

text \<open>
  \<open>SxsapiScraper.extract_project_links\<close> scans the lines of the markdown with three
  regular expressions. Python's \<open>re.search\<close> with each pattern is a parameter, giving
  the groups of the first match: \<open>title_re\<close> for the heading pattern (title, link,
  price), \<open>duration_re\<close> and \<open>deadline_re\<close> for the attribute lines; so is
  \<open>str.lower\<close>.
\<close>

record sx_patterns =
  title_re :: "pystr \<Rightarrow> (pystr \<times> pystr \<times> pystr) option"
  duration_re :: "pystr \<Rightarrow> pystr option"
  deadline_re :: "pystr \<Rightarrow> pystr option"
  lower :: "pystr \<Rightarrow> pystr"

text \<open>The phrases of navigation lines, as code points.\<close>

definition navigation :: "pystr list" where
  "navigation = [[30331, 24405], [27880, 20876], [20250, 21592], [21451, 38142, 21512, 20316]]"

text \<open>
  One turn of the loop on \<open>(projects, current_project)\<close>. \<open>clean_url\<close> is called
  outside any \<open>try\<close>: its exception leaves the function. A duration line met before
  any heading falls through to the deadline test, which needs a current project too:
  nothing changes.
\<close>

definition sx_line ::
  "sx_patterns \<Rightarrow> pystr \<Rightarrow> dict list \<times> dict \<Rightarrow> py_error + dict list \<times> dict" where
  "sx_line re raw state =
     (case state of (projects, current_project) \<Rightarrow>
        (let line = strip raw
         in if line = [] \<or> list_ex (\<lambda>x. contains x (lower re line)) navigation then Inr state
            else (case title_re re line of
                    Some (title, link, price) \<Rightarrow>
                      bind (clean_url sxsapi_base link) (\<lambda>url.
                        Inr (if current_project \<noteq> [] then projects @ [current_project]
                             else projects,
                             [(''title'', PStr (strip title)), (''url'', PStr url),
                              (''price'', PStr (strip price))]))
                  | None \<Rightarrow>
                      (case duration_re re line of
                         Some d \<Rightarrow>
                           if current_project \<noteq> []
                           then Inr (projects, AList.update ''duration'' (PStr d) current_project)
                           else Inr state
                       | None \<Rightarrow>
                           (case deadline_re re line of
                              Some d \<Rightarrow>
                                if current_project \<noteq> []
                                then Inr (projects,
                                          AList.update ''deadline'' (PStr d) current_project)
                                else Inr state
                            | None \<Rightarrow> Inr state)))))"

fun sx_lines ::
  "sx_patterns \<Rightarrow> pystr list \<Rightarrow> dict list \<times> dict \<Rightarrow> py_error + dict list \<times> dict" where
  "sx_lines re [] state = Inr state"
| "sx_lines re (raw # rest) state = bind (sx_line re raw state) (sx_lines re rest)"

definition sx_extract_project_links :: "sx_patterns \<Rightarrow> pystr \<Rightarrow> py_error + dict list" where
  "sx_extract_project_links re markdown_text =
     bind (sx_lines re (split_on 10 markdown_text) ([], [])) (\<lambda>state.
       case state of (projects, current_project) \<Rightarrow>
         Inr (if current_project \<noteq> [] then projects @ [current_project] else projects))"

text \<open>The lines that open a candidate: not skipped, and matched by the heading pattern.\<close>

definition heading :: "sx_patterns \<Rightarrow> pystr \<Rightarrow> bool" where
  "heading re raw =
     (strip raw \<noteq> [] \<and> \<not> list_ex (\<lambda>x. contains x (lower re (strip raw))) navigation \<and>
      title_re re (strip raw) \<noteq> None)"

subsection \<open>Sample pages\<close>

text \<open>
  Three project containers (one with a blank \<open><b>\<close>, one complete, one without a
  \<open><b>\<close>), an \<open>int\<close> that reads two numerals, and a markdown page of three lines with
  the matches \<open>re.search\<close> gives on them.
\<close>

definition blank_title_block :: container where
  "blank_title_block =
     \<lparr>anchors = [\<lparr>href = Some (py ''/job/1''), bold = Some (py '' ''), span = None\<rparr>],
      desc_elem = None, duration_elem = None, price_elem = None, applicants_elem = None\<rparr>"

definition widget_block :: container where
  "widget_block =
     \<lparr>anchors = [\<lparr>href = Some (py ''/job/1''), bold = Some (py ''Build a widget''), span = None\<rparr>],
      desc_elem = None, duration_elem = None, price_elem = Some (py ''100''),
      applicants_elem = None\<rparr>"

definition untitled_block :: container where
  "untitled_block =
     \<lparr>anchors = [\<lparr>href = Some (py ''/job/2''), bold = None, span = None\<rparr>],
      desc_elem = None, duration_elem = None, price_elem = Some (py ''200''),
      applicants_elem = None\<rparr>"

definition demo_int :: "pystr \<Rightarrow> int option" where
  "demo_int s = (if s = py ''100'' then Some 100 else if s = py ''200'' then Some 200 else None)"

definition widget_heading :: pystr where
  "widget_heading = py ''## [ Build a widget ](https://sxsapi.com/</post/1>) '' @ [65509] @ py '' 100''"

definition demo_patterns :: sx_patterns where
  "demo_patterns =
     \<lparr>title_re = (\<lambda>line. if line = widget_heading
                          then Some (py ''Build a widget '', py ''https://sxsapi.com/</post/1>'',
                                     py ''100'')
                          else None),
      duration_re = (\<lambda>line. if line = py ''* 30d'' then Some (py ''30d'') else None),
      deadline_re = (\<lambda>line. None),
      lower = (\<lambda>line. line)\<rparr>"

definition demo_markdown :: pystr where
  "demo_markdown = widget_heading @ [10] @ py ''* 30d'' @ [10] @ py ''- see all''"

text \<open>
  The invariant of the line scan: every project collected so far, and the current one
  unless it is empty, has the keys \<open>url\<close> and \<open>title\<close>; \<open>scan_count\<close> is the number
  of candidates the state holds.
\<close>

definition found :: "dict \<Rightarrow> bool" where
  "found p \<longleftrightarrow> has_key p ''url'' \<and> has_key p ''title''"

definition scan_inv :: "dict list \<times> dict \<Rightarrow> bool" where
  "scan_inv state \<longleftrightarrow> (\<forall>p\<in>set (fst state). found p) \<and> (snd state = [] \<or> found (snd state))"

definition scan_count :: "dict list \<times> dict \<Rightarrow> nat" where
  "scan_count state = length (fst state) + (if snd state = [] then 0 else 1)"

section \<open>Field extraction: \<open>extract_project_details\<close>\<close>

subsection \<open>sxsapi: patterns over the markdown\<close>

text \<open>
  \<open>SxsapiScraper.extract_project_details\<close> applies six regular expressions to the whole
  markdown; \<open>re.search\<close> with each pattern is a parameter that gives group 1 of the
  first match, named after the variable that receives the match in the source.
\<close>

record sx_detail_patterns =
  title_match :: "pystr \<Rightarrow> pystr option"
  price_match :: "pystr \<Rightarrow> pystr option"
  duration_match :: "pystr \<Rightarrow> pystr option"
  deadline_match :: "pystr \<Rightarrow> pystr option"
  skills_match :: "pystr \<Rightarrow> pystr option"
  coop_match :: "pystr \<Rightarrow> pystr option"

text \<open>The markers that end the description, as code points.\<close>

definition stop_markers :: "pystr list" where
  "stop_markers =
     [[38468, 20214], [25253, 21517, 21015, 34920], [38405, 35835, 20840, 37096],
      [24320, 21457, 32773, 24037, 20316, 25351, 21335]]"

text \<open>
  Lines 267--282: the description is collected from the lines after the one that
  contains the description marker (code points 39033, 30446, 25551, 36848), up to the
  first line with a stop marker; headings and images are left out.
\<close>

fun sx_description :: "bool \<Rightarrow> pystr \<Rightarrow> pystr list \<Rightarrow> pystr" where
  "sx_description description_started description [] = description"
| "sx_description description_started description (raw # rest) =
     (let line = strip raw
      in if contains [39033, 30446, 25551, 36848] line
         then sx_description True description rest
         else if description_started then
           (if list_ex (\<lambda>x. contains x line) stop_markers then description
            else if line \<noteq> [] \<and> \<not> startswith line (py ''#'') \<and> \<not> startswith line (py ''!['')
                 then sx_description description_started (description @ line @ py '' '') rest
            else sx_description description_started description rest)
         else sx_description description_started description rest)"

text \<open>\<open>if m: details[key] = f(m.group(1))\<close>.\<close>

definition set_if_matched :: "string \<Rightarrow> pystr option \<Rightarrow> (pystr \<Rightarrow> pystr) \<Rightarrow> dict \<Rightarrow> dict" where
  "set_if_matched key m f details =
     (case m of None \<Rightarrow> details | Some g \<Rightarrow> AList.update key (PStr (f g)) details)"

definition sx_extract_project_details :: "sx_detail_patterns \<Rightarrow> pystr \<Rightarrow> dict" where
  "sx_extract_project_details pats markdown_text =
     (let details = [];
          details = set_if_matched ''title'' (title_match pats markdown_text) strip details;
          details = set_if_matched ''price'' (price_match pats markdown_text) strip details;
          details = set_if_matched ''duration'' (duration_match pats markdown_text) (\<lambda>g. g) details;
          details = set_if_matched ''deadline'' (deadline_match pats markdown_text) (\<lambda>g. g) details;
          description = sx_description False [] (split_on 10 markdown_text);
          details = (if description \<noteq> []
                     then AList.update ''description'' (PStr (strip description)) details
                     else details);
          details = set_if_matched ''skills'' (skills_match pats markdown_text) strip details;
          details = set_if_matched ''cooperation'' (coop_match pats markdown_text) strip details
      in details)"

subsection \<open>yuanjisong: selectors over the detail page\<close>

text \<open>
  \<open>YuanjisongScraper.extract_project_details\<close> reads the page through BeautifulSoup.
  The page is modelled by what the selectors of the source give: the text of the first
  \<open>h2\<close>; for every \<open>.basic_info_row\<close>, the text of its \<open>.font_color_3\<close> and of its
  \<open>li:last-child\<close>; the text of the first \<open>.mobmid p\<close>; and the texts of the
  \<open>.admin-content-list li span a\<close> elements. \<open>str.isdigit\<close> on a character and
  \<open>int\<close> on a string are the parameters \<open>isdigit\<close> and \<open>int_of\<close>.
\<close>

record info_row =
  label_elem :: "pystr option"
  value_elem :: "pystr option"

record detail_soup =
  h2 :: "pystr option"
  basic_info_rows :: "info_row list"
  mobmid_p :: "pystr option"
  credit_list :: "pystr list"

text \<open>\<open>details[key] = int(''.join(filter(str.isdigit, value_text)))\<close>.\<close>

definition y_number ::
  "(pystr \<Rightarrow> int option) \<Rightarrow> (nat \<Rightarrow> bool) \<Rightarrow> string \<Rightarrow> pystr \<Rightarrow> dict \<Rightarrow> py_error + dict" where
  "y_number int_of isdigit key value_text details =
     (case int_of (filter isdigit value_text) of
        None \<Rightarrow> Inl ValueError
      | Some n \<Rightarrow> Inr (AList.update key (PInt n) details))"

text \<open>
  The body of the loop over the rows, lines 193--213; the labels of the \<open>elif\<close> chain
  are written as code points.
\<close>

definition y_info_row ::
  "(pystr \<Rightarrow> int option) \<Rightarrow> (nat \<Rightarrow> bool) \<Rightarrow> info_row \<Rightarrow> dict \<Rightarrow> py_error + dict" where
  "y_info_row int_of isdigit row details =
     (case label_elem row of
        None \<Rightarrow> Inr details
      | Some label_text \<Rightarrow>
          (let label = rstrip_char 65306 (strip label_text)
           in case value_elem row of
                None \<Rightarrow> Inr details
              | Some v \<Rightarrow>
                  (let value_text = strip v
                   in if contains [21512, 20316, 26041, 24335] label
                      then Inr (AList.update ''cooperation_type'' (PStr value_text) details)
                      else if contains [39044, 20272, 26085, 34218] label
                      then y_number int_of isdigit ''daily_salary'' value_text details
                      else if contains [39044, 20272, 24635, 20215] label
                      then y_number int_of isdigit ''total_price'' value_text details
                      else if contains [39044, 20272, 24037, 26102] label
                      then y_number int_of isdigit ''duration'' value_text details
                      else if contains [25152, 22312, 21306, 22495] label
                      then Inr (AList.update ''location'' (PStr value_text) details)
                      else Inr details)))"

fun y_info_rows ::
  "(pystr \<Rightarrow> int option) \<Rightarrow> (nat \<Rightarrow> bool) \<Rightarrow> info_row list \<Rightarrow> dict \<Rightarrow> py_error + dict" where
  "y_info_rows int_of isdigit [] details = Inr details"
| "y_info_rows int_of isdigit (row # rest) details =
     bind (y_info_row int_of isdigit row details) (y_info_rows int_of isdigit rest)"

text \<open>
  Lines 221--231: with three or more credit links the three counters are parsed; when
  any of them does not parse, the inner handler sets all three to 0.
\<close>

definition y_credit :: "(pystr \<Rightarrow> int option) \<Rightarrow> pystr list \<Rightarrow> dict \<Rightarrow> dict" where
  "y_credit int_of credit details =
     (case credit of
        a # b # c # others \<Rightarrow>
          (case (int_of (strip a), int_of (strip b), int_of (strip c)) of
             (Some x, Some y, Some z) \<Rightarrow>
               AList.update ''employer_complaints'' (PInt z)
                 (AList.update ''employer_reviews'' (PInt y)
                   (AList.update ''employer_projects'' (PInt x) details))
           | _ \<Rightarrow>
               AList.update ''employer_complaints'' (PInt 0)
                 (AList.update ''employer_reviews'' (PInt 0)
                   (AList.update ''employer_projects'' (PInt 0) details)))
      | _ \<Rightarrow> details)"

text \<open>
  The whole extractor: \<open>details['title']\<close> is assigned first and always, \<open>None\<close> when
  there is no \<open>h2\<close>; a \<open>ValueError\<close> from a row reaches the outer handler, which
  returns the empty dict.
\<close>

definition y_extract_project_details ::
  "(pystr \<Rightarrow> int option) \<Rightarrow> (nat \<Rightarrow> bool) \<Rightarrow> detail_soup \<Rightarrow> dict" where
  "y_extract_project_details int_of isdigit soup =
     (let title = (case h2 soup of None \<Rightarrow> PNone | Some text \<Rightarrow> PStr (strip text));
          details = AList.update ''title'' title []
      in case y_info_rows int_of isdigit (basic_info_rows soup) details of
           Inl e \<Rightarrow> []
         | Inr details \<Rightarrow>
             (let details = (case mobmid_p soup of
                               None \<Rightarrow> details
                             | Some text \<Rightarrow>
                                 AList.update ''description'' (PStr (strip text)) details)
              in y_credit int_of (credit_list soup) details))"

text \<open>
  The rule of each field that is read off the rows: the field and the label its row
  carries; \<open>labelled_with\<close> says whether a row has a label element whose cleaned text
  contains the label.
\<close>

definition field_labels :: "(string \<times> pystr) list" where
  "field_labels =
     [(''cooperation_type'', [21512, 20316, 26041, 24335]),
      (''daily_salary'', [39044, 20272, 26085, 34218]),
      (''total_price'', [39044, 20272, 24635, 20215]),
      (''duration'', [39044, 20272, 24037, 26102]),
      (''location'', [25152, 22312, 21306, 22495])]"

definition labelled_with :: "pystr \<Rightarrow> info_row \<Rightarrow> bool" where
  "labelled_with label row =
     (case label_elem row of
        None \<Rightarrow> False
      | Some label_text \<Rightarrow> contains label (rstrip_char 65306 (strip label_text)))"

subsection \<open>Sample detail pages\<close>

text \<open>
  A detail page with no \<open>h2\<close> and nothing else; a page with a title and a daily salary;
  ASCII digits; and patterns that match nothing.
\<close>

definition bare_soup :: detail_soup where
  "bare_soup = \<lparr>h2 = None, basic_info_rows = [], mobmid_p = None, credit_list = []\<rparr>"

definition salary_soup :: detail_soup where
  "salary_soup =
     \<lparr>h2 = Some (py ''STM32 firmware''),
      basic_info_rows =
        [\<lparr>label_elem = Some [39044, 20272, 26085, 34218, 65306],
          value_elem = Some (py ''100 '')\<rparr>],
      mobmid_p = None, credit_list = []\<rparr>"

definition ascii_digit :: "nat \<Rightarrow> bool" where
  "ascii_digit c \<longleftrightarrow> 48 \<le> c \<and> c \<le> 57"

definition no_patterns :: sx_detail_patterns where
  "no_patterns =
     \<lparr>title_match = (\<lambda>md. None), price_match = (\<lambda>md. None), duration_match = (\<lambda>md. None),
      deadline_match = (\<lambda>md. None), skills_match = (\<lambda>md. None), coop_match = (\<lambda>md. None)\<rparr>"

text \<open>
  The sample site once more, with detail pages whose markup (\<open>hello\<close>) gives the sample
  detail extractor nothing, for either scraper.
\<close>

definition hello_env :: "nat \<Rightarrow> page_env" where
  "hello_env page =
     \<lparr>list_page = fetched (if page = 1 then py ''page one''
                           else if page = 2 then py ''page two'' else py ''no more''),
      detail_page = (\<lambda>i. fetched (py ''hello'')),
      write_ok = True\<rparr>"

definition y_hello_env :: "nat \<Rightarrow> y_page_env" where
  "y_hello_env page =
     \<lparr>list_page = fetched (if page = 1 then py ''page one''
                           else if page = 2 then py ''page two'' else py ''no more''),
      detail_page = (\<lambda>i. fetched (py ''hello'')),
      write_ok = True,
      finished = (\<lambda>i. True)\<rparr>"

section \<open>Properties of \<open>clean_url\<close>\<close>

lemma split_Nil_iff: "split s = [] \<longleftrightarrow> list_all isspace s"
  by (subst split.simps) (auto simp: Let_def list_all_iff)

lemma split_first:
  "\<not> list_all isspace s \<Longrightarrow>
   \<exists>rest. split s = takeWhile (\<lambda>c. \<not> isspace c) (dropWhile isspace s) # rest"
  by (subst split.simps) (auto simp: Let_def list_all_iff)

text \<open>
  Claim C10. \<open>clean_url\<close> is partial exactly at the empty boundary: on a string made
  of whitespace only (the empty string included) \<open>url.split()[0]\<close> raises
  \<open>IndexError\<close>; on every other string it returns normally, and the value is computed
  from the first whitespace-delimited token with \<open>'</'\<close> and \<open>'>'\<close> removed: the
  empty string when that contains \<open>'javascript:'\<close>, the token itself when it starts
  with \<open>'http'\<close>, and the platform's base URL followed by the token otherwise.
\<close>

theorem clean_url_partial:
  "clean_url base url =
     (if list_all isspace url then Inl IndexError
      else Inr (let u = replace (py ''>'') [] (replace (py ''</'') []
                          (takeWhile (\<lambda>c. \<not> isspace c) (dropWhile isspace url)))
                in if contains (py ''javascript:'') u then []
                   else if startswith u (py ''http'') then u else base @ u))"
proof (cases "list_all isspace url")
  case True
  then have "split url = []" by (simp add: split_Nil_iff)
  with True show ?thesis by (simp add: clean_url_def)
next
  case False
  from split_first [OF this] obtain rest where
    "split url = takeWhile (\<lambda>c. \<not> isspace c) (dropWhile isspace url) # rest" ..
  with False show ?thesis by (simp add: clean_url_def Let_def)
qed

theorem clean_url_partial_witness:
  "clean_url sxsapi_base (py '' '') = Inl IndexError \<and>
   clean_url sxsapi_base [] = Inl IndexError \<and>
   clean_url sxsapi_base (py ''/post/1 x'') = Inr (py ''https://sxsapi.com/post/1'') \<and>
   clean_url yuanjisong_base (py ''javascript:void(0)'') = Inr [] \<and>
   clean_url sxsapi_base (py ''https://sxsapi.com/</post/235>'') =
     Inr (py ''https://sxsapi.com/post/235'')"
  using clean_url_partial [of sxsapi_base "py '' ''"]
    clean_url_partial [of sxsapi_base "[]"]
    clean_url_partial [of sxsapi_base "py ''/post/1 x''"]
    clean_url_partial [of yuanjisong_base "py ''javascript:void(0)''"]
    clean_url_partial [of sxsapi_base "py ''https://sxsapi.com/</post/235>''"]
  by (simp add: py_def isspace_def sxsapi_base_def yuanjisong_base_def replace.simps)

section \<open>Properties of the pagination loop\<close>

lemma scrape_loop_stop:
  assumes "fst (sp page st) = r" "stops r"
  shows "scrape_loop sp max_pages page all_jobs pages st = Some (all_jobs, pages @ [page], snd (sp page st))"
  using assms
  by (subst scrape_loop.simps) (auto simp: stops_def split: prod.splits sum.splits)

lemma scrape_loop_cap:
  assumes "fst (sp page st) = r" "\<not> stops r" "max_pages \<noteq> 0" "max_pages \<le> int page"
  shows "scrape_loop sp max_pages page all_jobs pages st =
     Some (all_jobs @ listings r, pages @ [page], snd (sp page st))"
  using assms
  by (subst scrape_loop.simps) (auto simp: stops_def listings_def split: prod.splits sum.splits)

lemma scrape_loop_next:
  assumes "fst (sp page st) = r" "\<not> stops r" "max_pages = 0 \<or> int page < max_pages"
  shows "scrape_loop sp max_pages page all_jobs pages st =
     scrape_loop sp max_pages (Suc page) (all_jobs @ listings r) (pages @ [page]) (snd (sp page st))"
  using assms
  by (subst scrape_loop.simps) (auto simp: stops_def listings_def split: prod.splits sum.splits)

lemma scrape_loop_runs:
  assumes res: "\<And>p st. fst (sp p st) = r p"
    and go: "\<And>p. page \<le> p \<Longrightarrow> p < k \<Longrightarrow> \<not> stops (r p)"
    and cap: "max_pages = 0 \<or> int k \<le> max_pages"
    and stop: "stops (r k)"
    and le: "page \<le> k"
  shows "\<exists>st'. scrape_loop sp max_pages page all_jobs pages st =
           Some (all_jobs @ concat (map (\<lambda>p. listings (r p)) [page..<k]), pages @ [page..<Suc k], st')"
  using go le
proof (induction "k - page" arbitrary: page all_jobs pages st)
  case 0
  then have "page = k" by simp
  with stop res show ?case
    by (auto simp: scrape_loop_stop [where r = "r k"])
next
  case (Suc n)
  then have lt: "page < k" by simp
  then have ns: "\<not> stops (r page)" using Suc.prems by simp
  from lt cap have c: "max_pages = 0 \<or> int page < max_pages" by auto
  have step: "scrape_loop sp max_pages page all_jobs pages st =
    scrape_loop sp max_pages (Suc page) (all_jobs @ listings (r page)) (pages @ [page]) (snd (sp page st))"
    using scrape_loop_next [of sp page st "r page" max_pages all_jobs pages] res ns c by simp
  have "n = k - Suc page" using Suc.hyps by simp
  from Suc.hyps(1) [OF this, of "all_jobs @ listings (r page)" "pages @ [page]" "snd (sp page st)"]
  obtain st' where "scrape_loop sp max_pages (Suc page) (all_jobs @ listings (r page)) (pages @ [page]) (snd (sp page st)) =
      Some ((all_jobs @ listings (r page)) @ concat (map (\<lambda>p. listings (r p)) [Suc page..<k]),
            (pages @ [page]) @ [Suc page..<Suc k], st')"
    using Suc.prems lt by auto
  with step lt show ?case
    by (auto simp: upt_conv_Cons)
qed

lemma scrape_loop_Some_stops:
  assumes run: "scrape_loop sp max_pages page all_jobs pages st = Some y"
    and res: "\<And>p st. fst (sp p st) = r p"
    and zero: "max_pages = 0"
  shows "\<exists>k\<ge>page. stops (r k)"
proof -
  have "sp = sp \<longrightarrow> max_pages = 0 \<longrightarrow> (\<exists>k\<ge>page. stops (r k))"
  proof (rule scrape_loop.raw_induct
      [where P = "\<lambda>sp' m page all_jobs pages st y. sp' = sp \<longrightarrow> m = 0 \<longrightarrow> (\<exists>k\<ge>page. stops (r k))",
        OF _ run])
    fix loop sp' m page all_jobs pages st y
    assume IH: "\<And>sp' m page all_jobs pages st y.
        loop sp' m page all_jobs pages st = Some y \<Longrightarrow>
        sp' = sp \<longrightarrow> m = 0 \<longrightarrow> (\<exists>k\<ge>page. stops (r k))"
      and body: "(case sp' page st of
          (Inl e, st') \<Rightarrow> Some (all_jobs, pages @ [page], st')
        | (Inr projects, st') \<Rightarrow>
            if projects = [] then Some (all_jobs, pages @ [page], st')
            else if m \<noteq> 0 \<and> m \<le> int page
                 then Some (all_jobs @ projects, pages @ [page], st')
            else loop sp' m (page + 1) (all_jobs @ projects) (pages @ [page]) st') = Some y"
    show "sp' = sp \<longrightarrow> m = 0 \<longrightarrow> (\<exists>k\<ge>page. stops (r k))"
    proof (intro impI)
      assume eq: "sp' = sp" and m: "m = 0"
      show "\<exists>k\<ge>page. stops (r k)"
      proof (cases "stops (r page)")
        case True
        then show ?thesis by blast
      next
        case False
        obtain x st' where sp: "sp page st = (x, st')" by (cases "sp page st")
        with res [of page st] have x: "x = r page" by simp
        from False x have "\<exists>projects. x = Inr projects \<and> projects \<noteq> []"
          by (cases "r page") (simp_all add: stops_def)
        then obtain projects where p: "x = Inr projects" "projects \<noteq> []" by blast
        from body sp p eq m
        have "loop sp 0 (page + 1) (all_jobs @ projects) (pages @ [page]) st' = Some y"
          by simp
        from IH [OF this] obtain k where "page + 1 \<le> k" "stops (r k)"
          by auto
        then show ?thesis by (intro exI [of _ k]) simp
      qed
    qed
  qed
  with zero show ?thesis by simp
qed

lemma scrape_loop_diverges:
  assumes res: "\<And>p st. fst (sp p st) = r p"
    and go: "\<And>p. page \<le> p \<Longrightarrow> \<not> stops (r p)"
  shows "scrape_loop sp 0 page all_jobs pages st = None"
proof (cases "scrape_loop sp 0 page all_jobs pages st")
  case None
  then show ?thesis .
next
  case (Some y)
  from scrape_loop_Some_stops [OF Some res] go show ?thesis by blast
qed


lemma sx_scrape_page_fst:
  "fst (sx_scrape_page xl xd env page st) = fst (sx_scrape_page xl xd env page st')"
  by (simp add: sx_scrape_page_def split: arun.splits option.splits sum.splits)

lemma y_scrape_page_fst:
  "fst (y_scrape_page xl xd env page st) = fst (y_scrape_page xl xd env page st')"
  by (simp add: y_scrape_page_def Let_def split: arun.splits option.splits sum.splits)

text \<open>
  The loop on what \<open>scrape_page\<close> returns: a run of \<open>scrape\<close> with
  \<open>max_pages = 10\<close> in which \<open>scrape_page\<close> returns non-empty lists for pages 1 and 2
  and the empty list for page 3 calls \<open>scrape_page\<close> for pages 1, 2 and 3 and for no
  other page, returns the listings of pages 1 and 2, and leaves exactly these in the
  output file when the final write succeeds. Whether a page with candidates makes
  \<open>scrape_page\<close> return a non-empty list is a matter of the page cycle, taken up in the
  section on candidates whose detail page yields nothing.
\<close>

lemma scrape_stops_at_empty_page:
  assumes res: "\<And>p st. fst (sp p st) = r p"
    and p1: "r 1 = Inr p1" "p1 \<noteq> []"
    and p2: "r 2 = Inr p2" "p2 \<noteq> []"
    and p3: "r 3 = Inr []"
  shows "\<exists>st'. scrape sp 10 final_ok st = Some (p1 @ p2, [1, 2, 3], st') \<and>
           (final_ok \<longrightarrow> output_file st' = Some (p1 @ p2))"
proof -
  have go: "\<And>p. 1 \<le> p \<Longrightarrow> p < 3 \<Longrightarrow> \<not> stops (r p)"
  proof -
    fix p :: nat assume "1 \<le> p" "p < 3"
    then have "p = 1 \<or> p = 2" by arith
    with p1 p2 show "\<not> stops (r p)" by (auto simp: stops_def)
  qed
  have stop: "stops (r 3)" using p3 by (simp add: stops_def)
  from scrape_loop_runs [of sp r 1 3 10 "[]" "[]" st, OF res go _ stop]
  obtain st' where "scrape_loop sp 10 1 [] [] st =
      Some (concat (map (\<lambda>p. listings (r p)) [1..<3]), [1..<Suc 3], st')"
    by auto
  moreover have "[1..<3] = [1, 2::nat]" "[1..<Suc 3] = [1, 2, 3::nat]"
    by (simp_all add: upt_conv_Cons)
  ultimately have "scrape_loop sp 10 1 [] [] st = Some (p1 @ p2, [1, 2, 3], st')"
    using p1 p2 by (simp add: listings_def)
  then show ?thesis
    by (auto simp: scrape_def save_results_def)
qed

lemma scrape_stops_at_empty_page_witness:
  "scrape (sx_scrape_page demo_links demo_details demo_env) 10 True st0 =
     Some ([update job1 [(''duration'', PStr (py ''5 days''))],
            update job2 [(''duration'', PStr (py ''5 days''))]], [1, 2, 3],
           \<lparr>output_file = Some [update job1 [(''duration'', PStr (py ''5 days''))],
                                 update job2 [(''duration'', PStr (py ''5 days''))]]\<rparr>)"
proof -
  let ?sp = "sx_scrape_page demo_links demo_details demo_env"
  let ?r = "\<lambda>p. fst (?sp p st0)"
  have res: "\<And>p st. fst (?sp p st) = ?r p" by (rule sx_scrape_page_fst)
  have r1: "?r 1 = Inr [update job1 [(''duration'', PStr (py ''5 days''))]]"
    by (simp add: sx_scrape_page_def demo_env_def fetched_def demo_links_def demo_details_def
        py_def sx_enrich_def has_key_def job1_def)
  have r2: "?r 2 = Inr [update job2 [(''duration'', PStr (py ''5 days''))]]"
    by (simp add: sx_scrape_page_def demo_env_def fetched_def demo_links_def demo_details_def
        py_def sx_enrich_def has_key_def job2_def)
  have r3: "?r 3 = Inr []"
    by (simp add: sx_scrape_page_def demo_env_def fetched_def demo_links_def py_def)
  from scrape_stops_at_empty_page [of ?sp ?r, OF res r1 _ r2 _ r3, of True st0]
  obtain st' where "scrape ?sp 10 True st0 =
      Some ([update job1 [(''duration'', PStr (py ''5 days''))]] @
            [update job2 [(''duration'', PStr (py ''5 days''))]], [1, 2, 3], st')"
    and "output_file st' = Some ([update job1 [(''duration'', PStr (py ''5 days''))]] @
            [update job2 [(''duration'', PStr (py ''5 days''))]])"
    by auto
  moreover have "st' = \<lparr>output_file = output_file st'\<rparr>" by simp
  ultimately show ?thesis by simp
qed

lemma scrape_loop_collects:
  assumes run: "scrape_loop sp m page all_jobs pages st = Some y"
    and res: "\<And>p st. fst (sp p st) = r p"
  shows "\<exists>new. fst (snd y) = pages @ new \<and>
           fst y = all_jobs @ concat (map (\<lambda>p. listings (r p)) new)"
proof -
  have "sp = sp \<longrightarrow> (\<exists>new. fst (snd y) = pages @ new \<and>
           fst y = all_jobs @ concat (map (\<lambda>p. listings (r p)) new))"
  proof (rule scrape_loop.raw_induct
      [where P = "\<lambda>sp' m page all_jobs pages st y. sp' = sp \<longrightarrow>
          (\<exists>new. fst (snd y) = pages @ new \<and>
             fst y = all_jobs @ concat (map (\<lambda>p. listings (r p)) new))",
        OF _ run])
    fix loop sp' m page all_jobs pages st y
    assume IH: "\<And>sp' m page all_jobs pages st y.
        loop sp' m page all_jobs pages st = Some y \<Longrightarrow>
        sp' = sp \<longrightarrow> (\<exists>new. fst (snd y) = pages @ new \<and>
             fst y = all_jobs @ concat (map (\<lambda>p. listings (r p)) new))"
      and body: "(case sp' page st of
          (Inl e, st') \<Rightarrow> Some (all_jobs, pages @ [page], st')
        | (Inr projects, st') \<Rightarrow>
            if projects = [] then Some (all_jobs, pages @ [page], st')
            else if m \<noteq> 0 \<and> m \<le> int page
                 then Some (all_jobs @ projects, pages @ [page], st')
            else loop sp' m (page + 1) (all_jobs @ projects) (pages @ [page]) st') = Some y"
    show "sp' = sp \<longrightarrow> (\<exists>new. fst (snd y) = pages @ new \<and>
             fst y = all_jobs @ concat (map (\<lambda>p. listings (r p)) new))"
    proof (intro impI)
      assume eq: "sp' = sp"
      obtain x st' where sp: "sp page st = (x, st')" by (cases "sp page st")
      with res [of page st] have x: "r page = x" by simp
      show "\<exists>new. fst (snd y) = pages @ new \<and>
             fst y = all_jobs @ concat (map (\<lambda>p. listings (r p)) new)"
      proof (cases x)
        case (Inl e)
        with body sp eq x show ?thesis
          by (intro exI [of _ "[page]"]) (auto simp: listings_def)
      next
        case (Inr projects)
        show ?thesis
        proof (cases "projects = [] \<or> (m \<noteq> 0 \<and> m \<le> int page)")
          case True
          with body sp eq x Inr show ?thesis
            by (intro exI [of _ "[page]"]) (auto simp: listings_def split: if_splits)
        next
          case False
          with body sp eq Inr
          have "loop sp m (page + 1) (all_jobs @ projects) (pages @ [page]) st' = Some y"
            by (auto split: if_splits)
          from IH [OF this] obtain new where
            "fst (snd y) = (pages @ [page]) @ new"
            "fst y = (all_jobs @ projects) @ concat (map (\<lambda>p. listings (r p)) new)"
            by auto
          with x Inr show ?thesis
            by (intro exI [of _ "page # new"]) (simp add: listings_def)
        qed
      qed
    qed
  qed
  then show ?thesis by simp
qed

lemma sx_scrape_page_saves:
  assumes "sx_scrape_page xl xd env page st = (Inr ds, st')" "ds \<noteq> []" "write_ok (env page)"
  shows "output_file st' = Some ds"
  using assms
  by (auto simp: sx_scrape_page_def save_results_def
      split: arun.splits option.splits sum.splits if_splits)

lemma y_scrape_page_saves:
  assumes "y_scrape_page xl xd env page st = (Inr ds, st')" "ds \<noteq> []" "write_ok (env page)"
  shows "output_file st' = Some ds"
  using assms
  by (auto simp: y_scrape_page_def save_results_def Let_def
      split: arun.splits option.splits sum.splits if_splits)

lemma demo_page_1:
  "sx_scrape_page demo_links demo_details demo_env 1 st =
     (Inr [detailed job1], st\<lparr>output_file := Some [detailed job1]\<rparr>)"
  by (simp add: sx_scrape_page_def demo_env_def fetched_def demo_links_def demo_details_def
      py_def sx_enrich_def has_key_def job1_def save_results_def update_def detailed_def)

lemma demo_page_2:
  "sx_scrape_page demo_links demo_details demo_env 2 st =
     (Inr [detailed job2], st\<lparr>output_file := Some [detailed job2]\<rparr>)"
  by (simp add: sx_scrape_page_def demo_env_def fetched_def demo_links_def demo_details_def
      py_def sx_enrich_def has_key_def job2_def save_results_def update_def detailed_def)

lemma demo_page_3:
  "sx_scrape_page demo_links demo_details demo_env 3 st = (Inr [], st\<lparr>output_file := Some []\<rparr>)"
  by (simp add: sx_scrape_page_def demo_env_def fetched_def demo_links_def py_def
      save_results_def)

lemma y_demo_page_1:
  "y_scrape_page demo_links demo_details y_demo_env 1 st =
     (Inr [detailed job1], st\<lparr>output_file := Some [detailed job1]\<rparr>)"
  by (simp add: y_scrape_page_def y_demo_env_def fetched_def demo_links_def demo_details_def
      py_def y_scrape_detail_page_def has_key_def job1_def save_results_def update_def
      detailed_def Let_def)

lemma demo_loop:
  "scrape_loop (sx_scrape_page demo_links demo_details demo_env) m 1 [] [] st0 =
     Some ([detailed job1, detailed job2], [1, 2, 3], \<lparr>output_file = Some []\<rparr>)"
  if "m = 0 \<or> m = 10"
proof -
  let ?sp = "sx_scrape_page demo_links demo_details demo_env"
  have "scrape_loop ?sp m 1 [] [] st0 =
      scrape_loop ?sp m 2 [detailed job1] [1] (st0\<lparr>output_file := Some [detailed job1]\<rparr>)"
    using that by (subst scrape_loop.simps, subst demo_page_1) (auto simp: numeral_2_eq_2)
  also have "\<dots> = scrape_loop ?sp m 3 [detailed job1, detailed job2] [1, 2]
      (st0\<lparr>output_file := Some [detailed job2]\<rparr>)"
    using that by (subst scrape_loop.simps, subst demo_page_2) (auto simp: numeral_2_eq_2 numeral_3_eq_3)
  also have "\<dots> = Some ([detailed job1, detailed job2], [1, 2, 3], \<lparr>output_file = Some []\<rparr>)"
    by (subst scrape_loop.simps, subst demo_page_3) (simp add: st0_def)
  finally show ?thesis .
qed

text \<open>
  Claim C2, as stated, fails: the per-page persistence step is the call
  \<open>self.save_results(detailed_projects)\<close> at the end of \<open>scrape_page\<close>, and its argument
  is the list of the current page only. On the sample site the file holds only the
  listing of page 2 after the second page, not the listings of pages 1 and 2.
\<close>

theorem checkpoint_holds_last_page_only:
  "output_file (snd (sx_scrape_page demo_links demo_details demo_env 2
      (snd (sx_scrape_page demo_links demo_details demo_env 1 st0)))) =
     Some [detailed job2] \<and>
   listings (fst (sx_scrape_page demo_links demo_details demo_env 1 st0)) @
   listings (fst (sx_scrape_page demo_links demo_details demo_env 2
      (snd (sx_scrape_page demo_links demo_details demo_env 1 st0)))) =
     [detailed job1, detailed job2] \<and>
   output_file (snd (sx_scrape_page demo_links demo_details demo_env 2
      (snd (sx_scrape_page demo_links demo_details demo_env 1 st0)))) \<noteq>
     Some (listings (fst (sx_scrape_page demo_links demo_details demo_env 1 st0)) @
           listings (fst (sx_scrape_page demo_links demo_details demo_env 2
      (snd (sx_scrape_page demo_links demo_details demo_env 1 st0)))))"
  by (simp add: sx_scrape_page_def demo_env_def fetched_def demo_links_def demo_details_def
        py_def sx_enrich_def has_key_def job1_def job2_def save_results_def st0_def
        update_def listings_def detailed_def)

text \<open>
  Claim C2, amended. Every page cycle that returns listings, of either scraper, has
  overwritten the output file with exactly the listings of that page (when the write
  succeeds). The sequence accumulated over all pages, which is the concatenation of what
  \<open>scrape_page\<close> returned for each page it was called with, is written once, by the
  final write of \<open>scrape\<close> after the loop.
\<close>

theorem checkpoint_writes_page_listings:
  "(sx_scrape_page xl xd env page s1 = (Inr ds, t1) \<and> ds \<noteq> [] \<and> write_ok (env page) \<longrightarrow>
      output_file t1 = Some ds) \<and>
   (y_scrape_page yl yd yenv ypage s2 = (Inr es, t2) \<and> es \<noteq> [] \<and> write_ok (yenv ypage) \<longrightarrow>
      output_file t2 = Some es) \<and>
   ((\<forall>p s. fst (sp p s) = r p) \<and> scrape sp max_pages True s3 = Some (all_jobs, pages, t3) \<longrightarrow>
      all_jobs = concat (map (\<lambda>p. listings (r p)) pages) \<and> output_file t3 = Some all_jobs)"
proof (intro conjI impI)
  assume "sx_scrape_page xl xd env page s1 = (Inr ds, t1) \<and> ds \<noteq> [] \<and> write_ok (env page)"
  then show "output_file t1 = Some ds" by (blast intro: sx_scrape_page_saves)
next
  assume "y_scrape_page yl yd yenv ypage s2 = (Inr es, t2) \<and> es \<noteq> [] \<and> write_ok (yenv ypage)"
  then show "output_file t2 = Some es" by (blast intro: y_scrape_page_saves)
next
  assume a: "(\<forall>p s. fst (sp p s) = r p) \<and>
    scrape sp max_pages True s3 = Some (all_jobs, pages, t3)"
  then obtain y where y: "scrape_loop sp max_pages 1 [] [] s3 = Some y"
    and "all_jobs = fst y" "pages = fst (snd y)"
    by (auto simp: scrape_def split: option.splits)
  moreover from a have "\<And>p st. fst (sp p st) = r p" by simp
  from scrape_loop_collects [OF y this]
  have "fst y = concat (map (\<lambda>p. listings (r p)) (fst (snd y)))" by auto
  ultimately show "all_jobs = concat (map (\<lambda>p. listings (r p)) pages)" by simp
next
  assume "(\<forall>p s. fst (sp p s) = r p) \<and>
    scrape sp max_pages True s3 = Some (all_jobs, pages, t3)"
  then show "output_file t3 = Some all_jobs"
    by (auto simp: scrape_def save_results_def split: option.splits)
qed

theorem checkpoint_writes_page_listings_witness:
  "output_file (snd (sx_scrape_page demo_links demo_details demo_env 2
      (snd (sx_scrape_page demo_links demo_details demo_env 1 st0)))) = Some [detailed job2] \<and>
   output_file (snd (y_scrape_page demo_links demo_details y_demo_env 1 st0)) =
     Some [detailed job1] \<and>
   scrape (sx_scrape_page demo_links demo_details demo_env) 10 True st0 =
     Some ([detailed job1, detailed job2], [1, 2, 3],
           \<lparr>output_file = Some [detailed job1, detailed job2]\<rparr>) \<and>
   [detailed job1, detailed job2] =
     concat (map (\<lambda>p. listings (fst (sx_scrape_page demo_links demo_details demo_env p st0)))
       [1, 2, 3])"
proof -
  let ?sp = "sx_scrape_page demo_links demo_details demo_env"
  let ?r = "\<lambda>p. fst (?sp p st0)"
  let ?s1 = "snd (?sp 1 st0)"
  let ?ysp = "y_scrape_page demo_links demo_details y_demo_env"
  have res: "\<forall>p s. fst (?sp p s) = ?r p" by (intro allI) (rule sx_scrape_page_fst)
  have run: "scrape ?sp 10 True st0 =
      Some ([detailed job1, detailed job2], [1, 2, 3],
            \<lparr>output_file = Some [detailed job1, detailed job2]\<rparr>)"
    using demo_loop [of 10] by (simp add: scrape_def save_results_def)
  note inst = checkpoint_writes_page_listings
    [where xl = demo_links and xd = demo_details and env = demo_env and page = 2
       and ?s1.0 = ?s1 and ds = "[detailed job2]" and ?t1.0 = "snd (?sp 2 ?s1)"
       and yl = demo_links and yd = demo_details and yenv = y_demo_env and ypage = 1
       and ?s2.0 = st0 and es = "[detailed job1]" and ?t2.0 = "snd (?ysp 1 st0)"
       and sp = ?sp and r = ?r and max_pages = 10 and ?s3.0 = st0
       and all_jobs = "[detailed job1, detailed job2]" and pages = "[1, 2, 3]"
       and ?t3.0 = "\<lparr>output_file = Some [detailed job1, detailed job2]\<rparr>"]
  have a: "?sp 2 ?s1 = (Inr [detailed job2], snd (?sp 2 ?s1)) \<and> [detailed job2] \<noteq> [] \<and>
      write_ok (demo_env 2)"
    using demo_page_2 [of "snd (?sp 1 st0)"] by (simp add: demo_env_def)
  have b: "?ysp 1 st0 = (Inr [detailed job1], snd (?ysp 1 st0)) \<and>
      [detailed job1] \<noteq> [] \<and> write_ok (y_demo_env 1)"
    using y_demo_page_1 [of st0] by (simp add: y_demo_env_def)
  from inst a have c1: "output_file (snd (?sp 2 ?s1)) = Some [detailed job2]"
    by blast
  from inst b have c2: "output_file (snd (?ysp 1 st0)) = Some [detailed job1]"
    by blast
  from inst res run have c3:
    "[detailed job1, detailed job2] = concat (map (\<lambda>p. listings (?r p)) [1, 2, 3])"
    by blast
  show ?thesis
    by (intro conjI) (rule c1 c2 c3 run)+
qed

text \<open>
  Claim C9. With \<open>max_pages = 0\<close> the test \<open>max_pages and page >= max_pages\<close> is never
  true: if page \<open>k\<close> is the first page on which \<open>scrape_page\<close> raises or returns the
  empty list, however large \<open>k\<close> is, the run calls \<open>scrape_page\<close> for every page from
  1 to \<open>k\<close> and returns the listings of the pages before \<open>k\<close>; and if there is no
  such page the loop never ends.
\<close>

theorem scrape_unlimited:
  assumes res: "\<And>p st. fst (sp p st) = r p"
  shows "(\<forall>k\<ge>1. (\<forall>p. 1 \<le> p \<and> p < k \<longrightarrow> \<not> stops (r p)) \<and> stops (r k) \<longrightarrow>
            (\<exists>st'. scrape sp 0 final_ok st =
               Some (concat (map (\<lambda>p. listings (r p)) [1..<k]), [1..<Suc k], st'))) \<and>
         ((\<forall>p\<ge>1. \<not> stops (r p)) \<longrightarrow> scrape sp 0 final_ok st = None)"
proof (intro conjI allI impI)
  fix k :: nat
  assume k: "1 \<le> k" and h: "(\<forall>p. 1 \<le> p \<and> p < k \<longrightarrow> \<not> stops (r p)) \<and> stops (r k)"
  from h have go: "\<And>p. 1 \<le> p \<Longrightarrow> p < k \<Longrightarrow> \<not> stops (r p)" and stop: "stops (r k)"
    by auto
  from scrape_loop_runs [of sp r 1 k 0 "[]" "[]" st, OF res go _ stop k]
  obtain st' where "scrape_loop sp 0 1 [] [] st =
      Some (concat (map (\<lambda>p. listings (r p)) [1..<k]), [1..<Suc k], st')"
    by auto
  then show "\<exists>st'. scrape sp 0 final_ok st =
      Some (concat (map (\<lambda>p. listings (r p)) [1..<k]), [1..<Suc k], st')"
    by (simp add: scrape_def)
next
  assume "\<forall>p\<ge>1. \<not> stops (r p)"
  then have "\<And>p. 1 \<le> p \<Longrightarrow> \<not> stops (r p)" by simp
  from scrape_loop_diverges [OF res this]
  show "scrape sp 0 final_ok st = None" by (simp add: scrape_def)
qed

theorem scrape_unlimited_witness:
  "(\<exists>st'. scrape (sx_scrape_page demo_links demo_details demo_env) 0 True st0 =
      Some ([update job1 [(''duration'', PStr (py ''5 days''))],
             update job2 [(''duration'', PStr (py ''5 days''))]], [1, 2, 3], st')) \<and>
   scrape (sx_scrape_page demo_links demo_details endless_env) 0 True st0 = None"
proof -
  let ?sp = "sx_scrape_page demo_links demo_details demo_env"
  let ?r = "\<lambda>p. fst (?sp p st0)"
  have res: "\<And>p st. fst (?sp p st) = ?r p" by (rule sx_scrape_page_fst)
  have r1: "?r 1 = Inr [update job1 [(''duration'', PStr (py ''5 days''))]]"
    by (simp add: sx_scrape_page_def demo_env_def fetched_def demo_links_def demo_details_def
        py_def sx_enrich_def has_key_def job1_def)
  have r2: "?r 2 = Inr [update job2 [(''duration'', PStr (py ''5 days''))]]"
    by (simp add: sx_scrape_page_def demo_env_def fetched_def demo_links_def demo_details_def
        py_def sx_enrich_def has_key_def job2_def)
  have r3: "?r 3 = Inr []"
    by (simp add: sx_scrape_page_def demo_env_def fetched_def demo_links_def py_def)
  have go: "\<forall>p. 1 \<le> p \<and> p < 3 \<longrightarrow> \<not> stops (?r p)"
  proof (intro allI impI)
    fix p :: nat assume "1 \<le> p \<and> p < 3"
    then have "p = 1 \<or> p = 2" by arith
    with r1 r2 show "\<not> stops (?r p)" by (auto simp: stops_def)
  qed
  have stop: "stops (?r 3)" using r3 by (simp add: stops_def)
  have up: "[1..<3] = [1, 2::nat]" "[1..<Suc 3] = [1, 2, 3::nat]"
    by (simp_all add: upt_conv_Cons)
  note run = scrape_unlimited [of ?sp ?r True st0, OF res, THEN conjunct1, rule_format, of 3]
  have "\<exists>st'. scrape ?sp 0 True st0 =
      Some (concat (map (\<lambda>p. listings (?r p)) [1..<3]), [1..<Suc 3], st')"
    by (rule run) (use go stop in simp_all)
  then have a: "\<exists>st'. scrape ?sp 0 True st0 =
      Some ([update job1 [(''duration'', PStr (py ''5 days''))],
             update job2 [(''duration'', PStr (py ''5 days''))]], [1, 2, 3], st')"
    unfolding up using r1 r2 by (simp add: listings_def)
  let ?sq = "sx_scrape_page demo_links demo_details endless_env"
  let ?q = "\<lambda>p. fst (?sq p st0)"
  have resq: "\<And>p st. fst (?sq p st) = ?q p" by (rule sx_scrape_page_fst)
  have "\<forall>p\<ge>1. \<not> stops (?q p)"
    by (simp add: sx_scrape_page_def endless_env_def fetched_def demo_links_def
        py_def sx_enrich_def has_key_def job1_def stops_def)
  with scrape_unlimited [of ?sq ?q True st0, OF resq]
  have b: "scrape ?sq 0 True st0 = None" by blast
  from a b show ?thesis by blast
qed

section \<open>Properties of detail enrichment\<close>

lemma keys_Nil: "keys [] = {}"
  by (simp add: keys_def)

lemma keys_Cons: "keys ((k, v) # d) = insert k (keys d)"
  by (simp add: keys_def)

lemma keys_AList_update: "keys (AList.update k v d) = insert k (keys d)"
  by (simp add: keys_def dom_update)

lemma update_Nil: "update c [] = c"
  by (simp add: update_def)

lemma update_Cons: "update c ((k, v) # d) = update (AList.update k v c) d"
  by (simp add: update_def)

lemma keys_update: "keys (update c d) = keys c \<union> keys d"
proof (induction d arbitrary: c)
  case Nil
  show ?case by (simp add: update_Nil keys_Nil)
next
  case (Cons kv d)
  obtain k v where kv: "kv = (k, v)" by (cases kv)
  from Cons.IH [of "AList.update k v c"] show ?case
    unfolding kv update_Cons keys_Cons keys_AList_update by blast
qed

lemma map_of_update_notin:
  "k \<notin> keys d \<Longrightarrow> map_of (update c d) k = map_of c k"
proof (induction d arbitrary: c)
  case Nil
  show ?case by (simp add: update_Nil)
next
  case (Cons kv d)
  obtain k' v where kv: "kv = (k', v)" by (cases kv)
  from Cons.prems have "k \<noteq> k'" "k \<notin> keys d" by (auto simp: keys_Cons kv)
  with Cons.IH [of "AList.update k' v c"] show ?case
    unfolding kv update_Cons by (simp add: update_conv')
qed

lemma map_of_update_in:
  "distinct (map fst d) \<Longrightarrow> k \<in> keys d \<Longrightarrow> map_of (update c d) k = map_of d k"
proof (induction d arbitrary: c)
  case Nil
  then show ?case by (simp add: keys_Nil)
next
  case (Cons kv d)
  obtain k' v where kv: "kv = (k', v)" by (cases kv)
  show ?case
  proof (cases "k = k'")
    case True
    with Cons.prems have "k \<notin> keys d" by (auto simp: keys_def kv)
    from map_of_update_notin [OF this, of "AList.update k' v c"] True show ?thesis
      unfolding kv update_Cons by (simp add: update_conv')
  next
    case False
    with Cons.prems have "k \<in> keys d" "distinct (map fst d)" by (auto simp: keys_Cons kv)
    with Cons.IH [of "AList.update k' v c"] False show ?thesis
      unfolding kv update_Cons by simp
  qed
qed

lemma has_key_keys: "has_key d k \<longleftrightarrow> k \<in> keys d"
  by (simp add: has_key_def keys_def map_of_eq_None_iff)

text \<open>
  The merge, where there is a record: for a candidate \<open>c\<close> (a record with a \<open>url\<close>),
  whatever the detail fetch gives, the record that enrichment yields has every key of
  \<open>c\<close>; and when the detail markup was extracted, with result \<open>d\<close> (a dict, so its
  keys are distinct), the enriched record carries the value of \<open>d\<close> for every key that
  \<open>c\<close> and \<open>d\<close> share. For yuanjisong (\<open>_scrape_detail_page\<close>) there always is such
  a record; for sxsapi (the loop body of \<open>scrape_page\<close>) this only speaks of the record
  appended to the page's list when one is; the section on candidates whose detail page
  yields nothing shows that none may be.
\<close>

lemma enrich_monotone_merge:
  assumes url: "has_key c ''url''"
  shows "(\<exists>e. y_scrape_detail_page xd c f = Inr e \<and> keys c \<subseteq> keys e \<and>
            (\<forall>r. f = Returns (Some r) \<and> success r \<and> html r \<noteq> [] \<and>
                 distinct (map fst (xd (html r))) \<longrightarrow>
               (\<forall>k. k \<in> keys c \<and> k \<in> keys (xd (html r)) \<longrightarrow>
                  map_of e k = map_of (xd (html r)) k))) \<and>
         (\<exists>eo. sx_enrich xd c f = Inr eo \<and>
            (\<forall>e. eo = Some e \<longrightarrow> keys c \<subseteq> keys e \<and>
               (\<forall>r. f = Returns (Some r) \<and> markdown r \<noteq> [] \<and>
                    distinct (map fst (xd (markdown r))) \<longrightarrow>
                  (\<forall>k. k \<in> keys c \<and> k \<in> keys (xd (markdown r)) \<longrightarrow>
                     map_of e k = map_of (xd (markdown r)) k))))"
proof (intro conjI)
  show "\<exists>e. y_scrape_detail_page xd c f = Inr e \<and> keys c \<subseteq> keys e \<and>
            (\<forall>r. f = Returns (Some r) \<and> success r \<and> html r \<noteq> [] \<and>
                 distinct (map fst (xd (html r))) \<longrightarrow>
               (\<forall>k. k \<in> keys c \<and> k \<in> keys (xd (html r)) \<longrightarrow>
                  map_of e k = map_of (xd (html r)) k))"
    using url
    by (auto simp: y_scrape_detail_page_def Let_def keys_update map_of_update_in keys_Nil
        split: arun.splits option.splits)
  show "\<exists>eo. sx_enrich xd c f = Inr eo \<and>
            (\<forall>e. eo = Some e \<longrightarrow> keys c \<subseteq> keys e \<and>
               (\<forall>r. f = Returns (Some r) \<and> markdown r \<noteq> [] \<and>
                    distinct (map fst (xd (markdown r))) \<longrightarrow>
                  (\<forall>k. k \<in> keys c \<and> k \<in> keys (xd (markdown r)) \<longrightarrow>
                     map_of e k = map_of (xd (markdown r)) k)))"
    using url
    by (auto simp: sx_enrich_def Let_def keys_update map_of_update_in keys_Nil
        split: arun.splits option.splits)
qed

lemma enrich_monotone_merge_witness:
  "y_scrape_detail_page retitled job1 (fetched (py ''detail'')) = Inr job1_retitled \<and>
   sx_enrich retitled job1 (fetched (py ''detail'')) = Inr (Some job1_retitled) \<and>
   keys job1 \<subseteq> keys job1_retitled \<and>
   map_of job1_retitled ''title'' = map_of (retitled (py ''detail'')) ''title''"
proof -
  have url: "has_key job1 ''url''" by (simp add: has_key_def job1_def)
  have y: "y_scrape_detail_page retitled job1 (fetched (py ''detail'')) = Inr job1_retitled"
    by (simp add: y_scrape_detail_page_def fetched_def has_key_def job1_def retitled_def
        py_def update_def job1_retitled_def)
  have sx: "sx_enrich retitled job1 (fetched (py ''detail'')) = Inr (Some job1_retitled)"
    by (simp add: sx_enrich_def fetched_def has_key_def job1_def retitled_def
        py_def update_def job1_retitled_def)
  have d: "distinct (map fst (retitled (py ''detail'')))" by (simp add: retitled_def)
  have k: "''title'' \<in> keys job1 \<and> ''title'' \<in> keys (retitled (py ''detail''))"
    by (simp add: keys_def job1_def retitled_def)
  from enrich_monotone_merge [OF url, of retitled "fetched (py ''detail'')"] y d k
  have "keys job1 \<subseteq> keys job1_retitled \<and>
    map_of job1_retitled ''title'' = map_of (retitled (py ''detail'')) ''title''"
    by (auto simp: fetched_def py_def)
  with y sx show ?thesis by blast
qed

text \<open>
  Claim C1, at the input where the code departs from it. The sxsapi page cycle fetches a
  detail page whose markup is not empty but gives the extractor nothing
  (\<open>details == {}\<close>): the candidate is in neither branch of \<open>if details:\<close> and is
  left out of the page's list. The yuanjisong cycle keeps the candidate on the same
  input.
\<close>

theorem sx_drops_candidate:
  "demo_links (py ''page one'') = Inr [job1] \<and>
   demo_details (py ''hello'') = [] \<and>
   fst (sx_scrape_page demo_links demo_details drop_env 1 st0) = Inr [] \<and>
   fst (y_scrape_page demo_links demo_details y_drop_env 1 st0) = Inr [job1]"
  by (simp add: sx_scrape_page_def y_scrape_page_def drop_env_def y_drop_env_def fetched_def
      demo_links_def demo_details_def py_def sx_enrich_def y_scrape_detail_page_def
      has_key_def job1_def Let_def)

section \<open>Properties of the aggregate deadline\<close>

lemma length_projects_at_deadline:
  "length (projects_at_deadline xd fetch fin i ps) = length ps"
  by (induction ps arbitrary: i) auto

lemma projects_at_deadline_pending:
  "j < length ps \<Longrightarrow> \<not> fin (i + j) \<Longrightarrow> projects_at_deadline xd fetch fin i ps ! j = ps ! j"
proof (induction ps arbitrary: i j)
  case Nil
  then show ?case by simp
next
  case (Cons p ps)
  show ?case
  proof (cases j)
    case 0
    with Cons.prems show ?thesis by simp
  next
    case (Suc j')
    with Cons.prems have "j' < length ps" "\<not> fin (Suc i + j')" by simp_all
    from Cons.IH [OF this] Suc show ?thesis by simp
  qed
qed

lemma y_scrape_detail_page_has_key:
  "y_scrape_detail_page xd p f = Inr e \<Longrightarrow> has_key p k \<Longrightarrow> has_key e k"
  by (auto simp: y_scrape_detail_page_def Let_def has_key_keys keys_update
      split: arun.splits option.splits if_splits)

lemma projects_at_deadline_has_key:
  "\<forall>p\<in>set ps. has_key p k \<Longrightarrow> \<forall>p\<in>set (projects_at_deadline xd fetch fin i ps). has_key p k"
  by (induction ps arbitrary: i)
    (auto split: sum.splits dest: y_scrape_detail_page_has_key)

lemma timeout_fill_spec:
  assumes "\<forall>p\<in>set ps. has_key p ''url''"
  shows "\<exists>res. timeout_fill acc ps = Inr res \<and> set acc \<subseteq> set res \<and>
           (\<forall>p\<in>set ps. \<exists>d\<in>set res. get d ''url'' = get p ''url'') \<and>
           (\<forall>i<length ps. (\<forall>d\<in>set acc. get d ''url'' \<noteq> get (ps ! i) ''url'') \<and>
                (\<forall>j<i. get (ps ! j) ''url'' \<noteq> get (ps ! i) ''url'') \<longrightarrow> ps ! i \<in> set res)"
  using assms
proof (induction ps arbitrary: acc)
  case Nil
  show ?case by simp
next
  case (Cons p ps)
  from Cons.prems have url: "has_key p ''url''" and rest: "\<forall>q\<in>set ps. has_key q ''url''"
    by simp_all
  let ?dup = "list_ex (\<lambda>d. get d ''url'' = get p ''url'') acc"
  let ?acc' = "if acc \<noteq> [] \<and> ?dup then acc else acc @ [p]"
  have step: "timeout_fill acc (p # ps) = timeout_fill ?acc' ps"
    using url by (cases acc) simp_all
  from Cons.IH [OF rest, of ?acc'] obtain res where
    res: "timeout_fill ?acc' ps = Inr res" and sub: "set ?acc' \<subseteq> set res"
    and all: "\<forall>q\<in>set ps. \<exists>d\<in>set res. get d ''url'' = get q ''url''"
    and fresh: "\<forall>i<length ps. (\<forall>d\<in>set ?acc'. get d ''url'' \<noteq> get (ps ! i) ''url'') \<and>
                (\<forall>j<i. get (ps ! j) ''url'' \<noteq> get (ps ! i) ''url'') \<longrightarrow> ps ! i \<in> set res"
    by blast
  have acc_sub: "set acc \<subseteq> set res" using sub by (auto split: if_splits)
  have p_url: "\<exists>d\<in>set res. get d ''url'' = get p ''url''"
  proof (cases "acc \<noteq> [] \<and> ?dup")
    case True
    then obtain d where "d \<in> set acc" "get d ''url'' = get p ''url''"
      by (auto simp: list_ex_iff)
    with acc_sub show ?thesis by blast
  next
    case False
    then have "p \<in> set res" using sub by auto
    then show ?thesis by blast
  qed
  have p_in: "p \<in> set res" if "\<forall>d\<in>set acc. get d ''url'' \<noteq> get p ''url''"
  proof -
    from that have "\<not> (acc \<noteq> [] \<and> ?dup)" by (auto simp: list_ex_iff)
    then show ?thesis using sub by auto
  qed
  have later: "(p # ps) ! i \<in> set res"
    if i: "i < length (p # ps)"
      and a: "\<forall>d\<in>set acc. get d ''url'' \<noteq> get ((p # ps) ! i) ''url''"
      and b: "\<forall>j<i. get ((p # ps) ! j) ''url'' \<noteq> get ((p # ps) ! i) ''url''" for i
  proof (cases i)
    case 0
    with a p_in show ?thesis by simp
  next
    case (Suc i')
    with i have i': "i' < length ps" by simp
    from b Suc have pne: "get p ''url'' \<noteq> get (ps ! i') ''url''" by auto
    have "\<forall>d\<in>set ?acc'. get d ''url'' \<noteq> get (ps ! i') ''url''"
      using a pne Suc by (auto split: if_splits)
    moreover have "\<forall>j<i'. get (ps ! j) ''url'' \<noteq> get (ps ! i') ''url''"
    proof (intro allI impI)
      fix j assume "j < i'"
      then have "Suc j < i" using Suc by simp
      from b [rule_format, OF this] Suc show "get (ps ! j) ''url'' \<noteq> get (ps ! i') ''url''"
        by simp
    qed
    ultimately have "ps ! i' \<in> set res" using fresh i' by blast
    with Suc show ?thesis by simp
  qed
  show ?case
  proof (intro exI [of _ res] conjI)
    show "timeout_fill acc (p # ps) = Inr res" using step res by simp
    show "set acc \<subseteq> set res" by (rule acc_sub)
    show "\<forall>q\<in>set (p # ps). \<exists>d\<in>set res. get d ''url'' = get q ''url''"
      using p_url all by simp
    show "\<forall>i<length (p # ps). (\<forall>d\<in>set acc. get d ''url'' \<noteq> get ((p # ps) ! i) ''url'') \<and>
                (\<forall>j<i. get ((p # ps) ! j) ''url'' \<noteq> get ((p # ps) ! i) ''url'') \<longrightarrow>
             (p # ps) ! i \<in> set res"
      using later by blast
  qed
qed

text \<open>
  Claim C4, as stated, fails: the handler appends a candidate only when no record with
  its URL is in the list yet. On a page of two candidates with the same URL, the first
  enriched before the deadline and the second still pending, the result holds the first
  record alone, in enriched form: the pending candidate is not there in its
  discovery-only form.
\<close>

theorem deadline_duplicate_url_skipped:
  "fst (y_scrape_page dup_links demo_details late_env 1 st0) = Inr [detailed dupA] \<and>
   \<not> finished (late_env 1) 1 \<and>
   dupB \<notin> set [detailed dupA] \<and>
   get dupB ''url'' = get (detailed dupA) ''url''"
  by (simp add: y_scrape_page_def late_env_def dup_links_def fetched_def demo_details_def
      y_scrape_detail_page_def has_key_def get_def dupA_def dupB_def detailed_def py_def
      update_def Let_def upt_conv_Cons)

text \<open>
  Claim C4, amended. When the fan-out over the candidates of a page (each with a
  \<open>url\<close>) is not done at the aggregate deadline, the page's result list has, for every
  candidate whose task had not completed, a record with that candidate's URL; and the
  candidate itself, in its discovery-only form, is in the list whenever no earlier
  candidate of the page, as it stands at the deadline, has the same URL.
\<close>

theorem deadline_keeps_pending:
  assumes lp: "list_page (env page) = Returns (Some res)" "html res \<noteq> []"
      "xl (html res) = Inr projects"
    and urls: "\<forall>p\<in>set projects. has_key p ''url''"
    and late: "\<not> list_all (finished (env page)) [0..<length projects]"
  shows "\<exists>detailed_projects.
           fst (y_scrape_page xl xd env page st) = Inr detailed_projects \<and>
           (\<forall>i<length projects. \<not> finished (env page) i \<longrightarrow>
              (\<exists>d\<in>set detailed_projects. get d ''url'' = get (projects ! i) ''url'') \<and>
              ((\<forall>j<i. get (projects_at_deadline xd (detail_page (env page))
                            (finished (env page)) 0 projects ! j) ''url'' \<noteq>
                       get (projects ! i) ''url'') \<longrightarrow>
               projects ! i \<in> set detailed_projects))"
proof -
  let ?cur = "projects_at_deadline xd (detail_page (env page)) (finished (env page)) 0 projects"
  have len: "length ?cur = length projects" by (rule length_projects_at_deadline)
  have keys: "\<forall>p\<in>set ?cur. has_key p ''url''"
    using urls by (rule projects_at_deadline_has_key)
  from timeout_fill_spec [OF keys, of "[]"] obtain detailed where
    fill: "timeout_fill [] ?cur = Inr detailed"
    and all: "\<forall>p\<in>set ?cur. \<exists>d\<in>set detailed. get d ''url'' = get p ''url''"
    and fresh: "\<forall>i<length ?cur. (\<forall>d\<in>set []. get d ''url'' \<noteq> get (?cur ! i) ''url'') \<and>
        (\<forall>j<i. get (?cur ! j) ''url'' \<noteq> get (?cur ! i) ''url'') \<longrightarrow> ?cur ! i \<in> set detailed"
    by blast
  have run: "fst (y_scrape_page xl xd env page st) = Inr detailed"
    using lp late fill by (simp add: y_scrape_page_def)
  have pending: "(\<exists>d\<in>set detailed. get d ''url'' = get (projects ! i) ''url'') \<and>
      ((\<forall>j<i. get (?cur ! j) ''url'' \<noteq> get (projects ! i) ''url'') \<longrightarrow>
       projects ! i \<in> set detailed)"
    if i: "i < length projects" and p: "\<not> finished (env page) i" for i
  proof -
    from projects_at_deadline_pending [of i projects "finished (env page)" 0 xd
        "detail_page (env page)"] i p
    have same: "?cur ! i = projects ! i" by simp
    from i len have "?cur ! i \<in> set ?cur" by simp
    with all same have "\<exists>d\<in>set detailed. get d ''url'' = get (projects ! i) ''url''"
      by metis
    moreover from fresh [rule_format, of i] i len same
    have "(\<forall>j<i. get (?cur ! j) ''url'' \<noteq> get (projects ! i) ''url'') \<longrightarrow>
       projects ! i \<in> set detailed"
      by simp
    ultimately show ?thesis by blast
  qed
  from run pending show ?thesis by blast
qed

theorem deadline_keeps_pending_witness:
  "fst (y_scrape_page pair_links demo_details late_env 1 st0) = Inr [detailed job1, job2] \<and>
   \<not> finished (late_env 1) 1 \<and> job2 \<in> set [detailed job1, job2]"
proof -
  let ?res = "\<lparr>success = True, html = py ''two blocks'', markdown = py ''two blocks''\<rparr>"
  have lp: "list_page (late_env 1) = Returns (Some ?res)" "html ?res \<noteq> []"
      "pair_links (html ?res) = Inr [job1, job2]"
    by (simp_all add: late_env_def fetched_def pair_links_def py_def)
  have urls: "\<forall>p\<in>set [job1, job2]. has_key p ''url''"
    by (simp add: has_key_def job1_def job2_def)
  have late: "\<not> list_all (finished (late_env 1)) [0..<length [job1, job2]]"
    by (simp add: late_env_def upt_conv_Cons)
  have ev: "fst (y_scrape_page pair_links demo_details late_env 1 st0) = Inr [detailed job1, job2]"
    by (simp add: y_scrape_page_def late_env_def pair_links_def fetched_def demo_details_def
      y_scrape_detail_page_def has_key_def get_def job1_def job2_def detailed_def py_def
      update_def Let_def upt_conv_Cons)
  note inst = deadline_keeps_pending
    [where env = late_env and page = 1 and xl = pair_links and res = ?res
       and projects = "[job1, job2]" and xd = demo_details and st = st0,
     OF lp urls late]
  then obtain dp where dp: "fst (y_scrape_page pair_links demo_details late_env 1 st0) = Inr dp"
    and pend: "\<forall>i<length [job1, job2]. \<not> finished (late_env 1) i \<longrightarrow>
        (\<exists>d\<in>set dp. get d ''url'' = get ([job1, job2] ! i) ''url'') \<and>
        ((\<forall>j<i. get (projects_at_deadline demo_details (detail_page (late_env 1))
                      (finished (late_env 1)) 0 [job1, job2] ! j) ''url'' \<noteq>
                 get ([job1, job2] ! i) ''url'') \<longrightarrow>
         [job1, job2] ! i \<in> set dp)"
    by blast
  have nf: "\<not> finished (late_env 1) 1" by (simp add: late_env_def)
  have other: "\<forall>j<1. get (projects_at_deadline demo_details (detail_page (late_env 1))
                      (finished (late_env 1)) 0 [job1, job2] ! j) ''url'' \<noteq>
                 get ([job1, job2] ! 1) ''url''"
    by (simp add: late_env_def fetched_def demo_details_def y_scrape_detail_page_def
        has_key_def get_def job1_def job2_def py_def update_def)
  from pend [rule_format, of 1] nf other have "[job1, job2] ! 1 \<in> set dp" by simp
  with dp ev nf show ?thesis by simp
qed

section \<open>Properties of \<open>_make_request\<close>\<close>

lemma make_request_from_step:
  "attempt < 3 \<Longrightarrow> make_request_from env attempt st =
     (case request_once (env attempt) st of
        (Some text, st') \<Rightarrow> (Some text, st')
      | (None, st') \<Rightarrow>
          make_request_from env (attempt + 1)
            (if attempt < 2 then log (Sleep (2 * (attempt + 1))) st' else st'))"
  by (subst make_request_from.simps) simp

lemma make_request_from_stop: "make_request_from env 3 st = (None, st)"
  by (subst make_request_from.simps) simp

lemma make_request_unroll:
  "make_request env st =
    (case request_once (env 0) st of
       (Some text, st') \<Rightarrow> (Some text, st')
     | (None, sa) \<Rightarrow>
        (case request_once (env 1) (log (Sleep 2) sa) of
           (Some text, st') \<Rightarrow> (Some text, st')
         | (None, sb) \<Rightarrow>
            (case request_once (env 2) (log (Sleep 4) sb) of
               (Some text, st') \<Rightarrow> (Some text, st')
             | (None, sc) \<Rightarrow> (None, sc))))"
proof -
  have ar: "(0::nat) < 3" "(1::nat) < 3" "(2::nat) < 3"
    "(0::nat) + 1 = 1" "(1::nat) + 1 = 2" "(2::nat) + 1 = 3"
    "((0::nat) < 2) = True" "((1::nat) < 2) = True" "((2::nat) < 2) = False" "2 * (1::nat) = 2" "2 * (2::nat) = 4"
    by simp_all
  have 2: "make_request_from env 2 s =
      (case request_once (env 2) s of
         (Some text, st') \<Rightarrow> (Some text, st') | (None, sc) \<Rightarrow> (None, sc))" for s
    using make_request_from_step [of 2 env s, OF ar(3)]
    unfolding ar if_True if_False make_request_from_stop .
  have 1: "make_request_from env 1 s =
      (case request_once (env 1) s of
         (Some text, st') \<Rightarrow> (Some text, st')
       | (None, sb) \<Rightarrow> make_request_from env 2 (log (Sleep 4) sb))" for s
    using make_request_from_step [of 1 env s, OF ar(2)]
    unfolding ar if_True if_False .
  have 0: "make_request_from env 0 s =
      (case request_once (env 0) s of
         (Some text, st') \<Rightarrow> (Some text, st')
       | (None, sa) \<Rightarrow> make_request_from env 1 (log (Sleep 2) sa))" for s
    using make_request_from_step [of 0 env s, OF ar(1)]
    unfolding ar if_True if_False .
  show ?thesis
    unfolding make_request_def 0 1 2 ..
qed

lemma all_less_3: "(\<forall>i<3. P i) \<longleftrightarrow> P 0 \<and> P 1 \<and> P (2::nat)"
proof
  assume "\<forall>i<3. P i"
  then show "P 0 \<and> P 1 \<and> P 2" by simp
next
  assume a: "P 0 \<and> P 1 \<and> P 2"
  show "\<forall>i<3. P i"
  proof (intro allI impI)
    fix i :: nat assume "i < 3"
    then have "i = 0 \<or> i = 1 \<or> i = 2" by arith
    with a show "P i" by auto
  qed
qed

lemma ex_less_3: "(\<exists>i<3. P i) \<longleftrightarrow> P 0 \<or> P 1 \<or> P (2::nat)"
  using all_less_3 [of "\<lambda>i. \<not> P i"] by blast

lemma gets_append: "gets (a @ b) = gets a + gets b"
  by (simp add: gets_def)

lemma sleeps_append: "sleeps (a @ b) = sleeps a @ sleeps b"
  by (simp add: sleeps_def)

lemma request_once_spec:
  "\<exists>new. events (snd (request_once resp st)) = events st @ new \<and>
         gets new = 1 \<and> sleeps new = [] \<and>
         (fst (request_once resp st) = None \<longleftrightarrow> \<not> succeeds resp) \<and>
         (\<forall>text. fst (request_once resp st) = Some text \<longrightarrow> resp = Response 200 text) \<and>
         (\<forall>e. resp = Fails e \<longrightarrow> \<not> session (snd (request_once resp st)) \<and>
              new = (if session st then [] else [Init]) @ [Get, Error e, Close])"
  by (cases resp)
    (auto simp: request_once_def Let_def init_session_def close_session_def log_def
      gets_def sleeps_def succeeds_def)

lemma session_log: "session (log e st) = session st"
  by (simp add: log_def)

lemma events_log: "events (log e st) = events st @ [e]"
  by (simp add: log_def)

text \<open>
  Claim C8, as stated, fails in its last part: the value returned after the last attempt
  is \<open>None\<close>, which carries no error. Two runs whose attempts all fail, with different
  errors, return the same value.
\<close>

theorem make_request_drops_error:
  "fst (make_request (\<lambda>i. Fails TimeoutError) \<lparr>session = False, events = []\<rparr>) = None \<and>
   fst (make_request (\<lambda>i. Fails (OtherError (py ''connection reset'')))
          \<lparr>session = False, events = []\<rparr>) = None \<and>
   TimeoutError \<noteq> OtherError (py ''connection reset'')"
  by (simp add: make_request_unroll request_once_def init_session_def close_session_def
      log_def Let_def)

text \<open>
  Claim C8, amended. For every sequence of responses the helper sends at most 3 requests;
  it returns the body of the first response with status 200 among the first three, and
  \<open>None\<close> exactly when none of the three attempts succeeds, in which case it has sent
  3 requests and paused 2 and then 4 seconds (the pauses are always none, 2, or 2 then
  4); it never raises. When all three attempts raise, every attempt closes the session
  and the next one opens a new one, and the errors are logged, not returned.
\<close>

theorem make_request_retries:
  "case make_request env st of
     (r, st') \<Rightarrow>
       (\<exists>new. events st' = events st @ new \<and> gets new \<le> 3 \<and>
          (r = None \<longleftrightarrow> (\<forall>i<3. \<not> succeeds (env i))) \<and>
          (\<forall>text. r = Some text \<longrightarrow> (\<exists>i<3. env i = Response 200 text)) \<and>
          (r = None \<longrightarrow> gets new = 3 \<and> sleeps new = [2, 4]) \<and>
          (sleeps new = [] \<or> sleeps new = [2] \<or> sleeps new = [2, 4]) \<and>
          (\<forall>e0 e1 e2. env 0 = Fails e0 \<and> env 1 = Fails e1 \<and> env 2 = Fails e2 \<longrightarrow>
             \<not> session st' \<and>
             new = (if session st then [] else [Init]) @
                   [Get, Error e0, Close, Sleep 2, Init, Get, Error e1, Close,
                    Sleep 4, Init, Get, Error e2, Close]))"
proof -
  obtain r0 s0 where a0: "request_once (env 0) st = (r0, s0)" by (cases "request_once (env 0) st")
  obtain r1 s1 where a1: "request_once (env 1) (log (Sleep 2) s0) = (r1, s1)"
    by (cases "request_once (env 1) (log (Sleep 2) s0)")
  obtain r2 s2 where a2: "request_once (env 2) (log (Sleep 4) s1) = (r2, s2)"
    by (cases "request_once (env 2) (log (Sleep 4) s1)")
  have "\<exists>n0. events s0 = events st @ n0 \<and> gets n0 = 1 \<and> sleeps n0 = [] \<and>
      (r0 = None \<longleftrightarrow> \<not> succeeds (env 0)) \<and>
      (\<forall>text. r0 = Some text \<longrightarrow> env 0 = Response 200 text) \<and>
      (\<forall>e. env 0 = Fails e \<longrightarrow> \<not> session s0 \<and>
          n0 = (if session st then [] else [Init]) @ [Get, Error e, Close])"
    using request_once_spec [of "env 0" st] unfolding a0 fst_conv snd_conv .
  then obtain n0 where
    n0: "events s0 = events st @ n0" "gets n0 = 1" "sleeps n0 = []"
      "r0 = None \<longleftrightarrow> \<not> succeeds (env 0)"
      "\<forall>text. r0 = Some text \<longrightarrow> env 0 = Response 200 text"
      "\<forall>e. env 0 = Fails e \<longrightarrow> \<not> session s0 \<and>
          n0 = (if session st then [] else [Init]) @ [Get, Error e, Close]"
    by blast
  have "\<exists>n1. events s1 = (events s0 @ [Sleep 2]) @ n1 \<and> gets n1 = 1 \<and> sleeps n1 = [] \<and>
      (r1 = None \<longleftrightarrow> \<not> succeeds (env 1)) \<and>
      (\<forall>text. r1 = Some text \<longrightarrow> env 1 = Response 200 text) \<and>
      (\<forall>e. env 1 = Fails e \<longrightarrow> \<not> session s1 \<and>
          n1 = (if session s0 then [] else [Init]) @ [Get, Error e, Close])"
    using request_once_spec [of "env 1" "log (Sleep 2) s0"]
    unfolding a1 fst_conv snd_conv events_log session_log .
  then obtain n1 where
    n1: "events s1 = (events s0 @ [Sleep 2]) @ n1" "gets n1 = 1" "sleeps n1 = []"
      "r1 = None \<longleftrightarrow> \<not> succeeds (env 1)"
      "\<forall>text. r1 = Some text \<longrightarrow> env 1 = Response 200 text"
      "\<forall>e. env 1 = Fails e \<longrightarrow> \<not> session s1 \<and>
          n1 = (if session s0 then [] else [Init]) @ [Get, Error e, Close]"
    by blast
  have "\<exists>n2. events s2 = (events s1 @ [Sleep 4]) @ n2 \<and> gets n2 = 1 \<and> sleeps n2 = [] \<and>
      (r2 = None \<longleftrightarrow> \<not> succeeds (env 2)) \<and>
      (\<forall>text. r2 = Some text \<longrightarrow> env 2 = Response 200 text) \<and>
      (\<forall>e. env 2 = Fails e \<longrightarrow> \<not> session s2 \<and>
          n2 = (if session s1 then [] else [Init]) @ [Get, Error e, Close])"
    using request_once_spec [of "env 2" "log (Sleep 4) s1"]
    unfolding a2 fst_conv snd_conv events_log session_log .
  then obtain n2 where
    n2: "events s2 = (events s1 @ [Sleep 4]) @ n2" "gets n2 = 1" "sleeps n2 = []"
      "r2 = None \<longleftrightarrow> \<not> succeeds (env 2)"
      "\<forall>text. r2 = Some text \<longrightarrow> env 2 = Response 200 text"
      "\<forall>e. env 2 = Fails e \<longrightarrow> \<not> session s2 \<and>
          n2 = (if session s1 then [] else [Init]) @ [Get, Error e, Close]"
    by blast
  have g: "gets (Sleep n # es) = gets es" "sleeps (Sleep n # es) = n # sleeps es" for n es
    by (simp_all add: gets_def sleeps_def)
  show ?thesis
  proof (cases r0)
    case (Some t0)
    with a0 have "make_request env st = (Some t0, s0)" by (simp add: make_request_unroll)
    with Some n0 show ?thesis
      by (auto simp: all_less_3 ex_less_3 succeeds_def)
  next
    case None
    note r0 = None
    show ?thesis
    proof (cases r1)
      case (Some t1)
      with r0 a0 a1 have "make_request env st = (Some t1, s1)" by (simp add: make_request_unroll)
      with Some r0 n0 n1 show ?thesis
        by (auto simp: all_less_3 ex_less_3 succeeds_def gets_append sleeps_append g)
    next
      case None
      note r1 = None
      from r0 r1 a0 a1 a2 have m: "make_request env st = (r2, s2)"
        by (simp add: make_request_unroll split: option.splits)
      show ?thesis
      proof (cases r2)
        case (Some t2)
        with m r0 r1 n0 n1 n2 show ?thesis
          by (auto simp: all_less_3 ex_less_3 succeeds_def gets_append sleeps_append g)
      next
        case None
        with m r0 r1 n0 n1 n2 show ?thesis
          by (auto simp: all_less_3 ex_less_3 succeeds_def gets_append sleeps_append g)
      qed
    qed
  qed
qed

theorem make_request_retries_witness:
  "make_request (\<lambda>i. Fails TimeoutError) \<lparr>session = False, events = []\<rparr> =
     (None, \<lparr>session = False,
             events = [Init, Get, Error TimeoutError, Close, Sleep 2,
                       Init, Get, Error TimeoutError, Close, Sleep 4,
                       Init, Get, Error TimeoutError, Close]\<rparr>) \<and>
   make_request (\<lambda>i. if i = 1 then Response 200 (py ''<html>'') else Response 503 [])
       \<lparr>session = True, events = []\<rparr> =
     (Some (py ''<html>''), \<lparr>session = True, events = [Get, Warning 503, Sleep 2, Get]\<rparr>)"
  using make_request_retries [where env = "\<lambda>i. Fails TimeoutError"
      and st = "\<lparr>session = False, events = []\<rparr>"]
    make_request_retries [where env = "\<lambda>i. if i = 1 then Response 200 (py ''<html>'')
        else Response 503 []" and st = "\<lparr>session = True, events = []\<rparr>"]
  by (simp add: make_request_unroll request_once_def init_session_def close_session_def
      log_def Let_def)

section \<open>Properties of discovery\<close>

lemma has_key_update: "has_key (AList.update k v d) k' \<longleftrightarrow> k' = k \<or> has_key d k'"
  by (simp add: has_key_def update_conv')

lemma y_links_keys:
  "\<forall>p\<in>set (y_extract_project_links int_of containers). has_key p ''url'' \<and> has_key p ''title''"
  by (induction containers) (auto split: sum.splits)

lemma y_links_length: "length (y_extract_project_links int_of containers) \<le> length containers"
  by (induction containers) (auto split: sum.splits)

lemma sx_line_cases:
  assumes run: "sx_line re raw (projects, current) = Inr state'"
  obtains
    (skip) "state' = (projects, current)" "\<not> heading re raw"
  | (head) title url price where "heading re raw"
      "state' = (if current \<noteq> [] then projects @ [current] else projects,
                 [(''title'', PStr title), (''url'', PStr url), (''price'', PStr price)])"
  | (attr) k v where "\<not> heading re raw" "current \<noteq> []"
      "state' = (projects, AList.update k v current)"
proof -
  let ?line = "strip raw"
  let ?nav = "list_ex (\<lambda>x. contains x (lower re ?line)) navigation"
  show thesis
  proof (cases "?line = [] \<or> ?nav")
    case True
    with run have "state' = (projects, current)"
      by (simp add: sx_line_def Let_def)
    moreover from True have "\<not> heading re raw" by (auto simp: heading_def)
    ultimately show thesis by (rule skip)
  next
    case False
    then have ns: "?line \<noteq> []" "\<not> ?nav" by simp_all
    show thesis
    proof (cases "title_re re ?line")
      case (Some g)
      obtain t l p where g: "g = (t, l, p)" by (cases g)
      from run ns Some g have
        "bind (clean_url sxsapi_base l) (\<lambda>url.
           Inr (if current \<noteq> [] then projects @ [current] else projects,
                [(''title'', PStr (strip t)), (''url'', PStr url), (''price'', PStr (strip p))])) =
         Inr state'"
        by (simp add: sx_line_def Let_def)
      then obtain url where
        "state' = (if current \<noteq> [] then projects @ [current] else projects,
                [(''title'', PStr (strip t)), (''url'', PStr url), (''price'', PStr (strip p))])"
        by (cases "clean_url sxsapi_base l") (auto simp: bind_def)
      moreover from ns Some have "heading re raw" by (simp add: heading_def)
      ultimately show thesis by (rule head [rotated])
    next
      case None
      with ns have nh: "\<not> heading re raw" by (simp add: heading_def)
      show thesis
      proof (cases "current = []")
        case True
        with run ns None have "state' = (projects, current)"
          by (simp add: sx_line_def Let_def split: option.splits)
        then show thesis using nh by (rule skip)
      next
        case False
        with run ns None have "state' = (projects, current) \<or>
            (\<exists>k v. state' = (projects, AList.update k v current))"
          by (auto simp: sx_line_def Let_def split: option.splits)
        then show thesis
        proof
          assume "state' = (projects, current)"
          then show thesis using nh by (rule skip)
        next
          assume "\<exists>k v. state' = (projects, AList.update k v current)"
          then obtain k v where "state' = (projects, AList.update k v current)" by blast
          with nh False show thesis by (rule attr)
        qed
      qed
    qed
  qed
qed

lemma sx_line_inv:
  assumes run: "sx_line re raw state = Inr state'" and inv: "scan_inv state"
  shows "scan_inv state' \<and>
         scan_count state' \<le> scan_count state + (if heading re raw then 1 else 0)"
proof -
  obtain projects current where st: "state = (projects, current)" by (cases state)
  have u: "AList.update k v d \<noteq> []" for k v and d :: dict
    by (cases d) auto
  from run [unfolded st] show ?thesis
  proof (cases rule: sx_line_cases)
    case skip
    with inv st show ?thesis by (simp add: scan_count_def)
  next
    case (head title url price)
    have "found [(''title'', PStr title), (''url'', PStr url), (''price'', PStr price)]"
      by (simp add: found_def has_key_def)
    with head inv st show ?thesis
      by (auto simp: scan_inv_def scan_count_def)
  next
    case (attr k v)
    with inv st have "found current" by (simp add: scan_inv_def)
    then have "found (AList.update k v current)"
      by (simp add: found_def has_key_update)
    with attr inv st show ?thesis
      by (simp add: scan_inv_def scan_count_def u)
  qed
qed

lemma sx_lines_inv:
  "sx_lines re lines state = Inr state' \<Longrightarrow> scan_inv state \<Longrightarrow>
   scan_inv state' \<and> scan_count state' \<le> scan_count state + length (filter (heading re) lines)"
proof (induction lines arbitrary: state)
  case Nil
  then show ?case by simp
next
  case (Cons raw rest)
  from Cons.prems(1) obtain mid where
    mid: "sx_line re raw state = Inr mid" and rest: "sx_lines re rest mid = Inr state'"
    by (auto simp: bind_def split: sum.splits)
  from sx_line_inv [OF mid Cons.prems(2)]
  have a: "scan_inv mid" "scan_count mid \<le> scan_count state + (if heading re raw then 1 else 0)"
    by simp_all
  from Cons.IH [OF rest a(1)] a(2) show ?case by auto
qed

lemma clean_url_value:
  "clean_url base url =
     (if list_all isspace url then Inl IndexError
      else Inr (let u = replace (py ''>'') [] (replace (py ''</'') []
                          (takeWhile (\<lambda>c. \<not> isspace c) (dropWhile isspace url)))
                in if contains (py ''javascript:'') u then []
                   else if startswith u (py ''http'') then u else base @ u))"
proof (cases "list_all isspace url")
  case True
  then have "split url = []" by (simp add: split_Nil_iff)
  with True show ?thesis by (simp add: clean_url_def)
next
  case False
  from split_first [OF this] obtain rest where
    "split url = takeWhile (\<lambda>c. \<not> isspace c) (dropWhile isspace url) # rest" ..
  with False show ?thesis by (simp add: clean_url_def Let_def)
qed

lemma y_project_blank:
  "y_project demo_int blank_title_block =
     Inr [(''url'', PStr (py ''https://www.yuanjisong.com/job/1'')), (''title'', PStr [])]"
  by (simp add: blank_title_block_def y_project_def y_title_and_url_def y_description_def
      y_duration_def y_counter_def y_employer_def bind_def clean_url_value
      replace.simps strip_def isspace_def py_def yuanjisong_base_def)

lemma y_project_widget:
  "y_project demo_int widget_block =
     Inr [(''url'', PStr (py ''https://www.yuanjisong.com/job/1'')),
          (''title'', PStr (py ''Build a widget'')), (''price'', PInt 100)]"
  by (simp add: widget_block_def y_project_def y_title_and_url_def y_description_def
      y_duration_def y_counter_def y_employer_def bind_def clean_url_value demo_int_def
      replace.simps strip_def isspace_def py_def yuanjisong_base_def)

lemma y_project_untitled:
  "y_project demo_int untitled_block =
     Inr [(''url'', PStr (py ''https://www.yuanjisong.com/job/2'')), (''price'', PInt 200)]"
  by (simp add: untitled_block_def y_project_def y_title_and_url_def y_description_def
      y_duration_def y_counter_def y_employer_def bind_def clean_url_value demo_int_def
      replace.simps strip_def isspace_def py_def yuanjisong_base_def)

lemma demo_lines:
  "split_on 10 demo_markdown = [widget_heading, py ''* 30d'', py ''- see all'']"
  by (simp add: demo_markdown_def widget_heading_def py_def)

lemma strip_id: "s \<noteq> [] \<Longrightarrow> \<not> isspace (hd s) \<Longrightarrow> \<not> isspace (last s) \<Longrightarrow> strip s = s"
proof -
  assume s: "s \<noteq> []" and h: "\<not> isspace (hd s)" and l: "\<not> isspace (last s)"
  from s h have a: "dropWhile isspace s = s" by (cases s) simp_all
  from s l have "dropWhile isspace (rev s) = rev s"
    by (cases "rev s") (simp_all add: last_rev [symmetric] hd_rev)
  with a show ?thesis by (simp add: strip_def)
qed

lemma demo_strips:
  "strip widget_heading = widget_heading" "strip (py ''* 30d'') = py ''* 30d''"
  "strip (py ''- see all'') = py ''- see all''"
  by (rule strip_id; simp add: widget_heading_def py_def isspace_def)+

lemma demo_not_navigation:
  "\<not> list_ex (\<lambda>x. contains x widget_heading) navigation"
  "\<not> list_ex (\<lambda>x. contains x (py ''* 30d'')) navigation"
  "\<not> list_ex (\<lambda>x. contains x (py ''- see all'')) navigation"
  by (simp_all add: navigation_def widget_heading_def py_def)

lemma demo_matches:
  "title_re demo_patterns widget_heading =
     Some (py ''Build a widget '', py ''https://sxsapi.com/</post/1>'', py ''100'')"
  "title_re demo_patterns (py ''* 30d'') = None"
  "title_re demo_patterns (py ''- see all'') = None"
  "duration_re demo_patterns (py ''* 30d'') = Some (py ''30d'')"
  "duration_re demo_patterns (py ''- see all'') = None"
  "deadline_re demo_patterns (py ''- see all'') = None"
  "lower demo_patterns s = s"
  by (simp_all add: demo_patterns_def widget_heading_def py_def)

lemma demo_link: "clean_url sxsapi_base (py ''https://sxsapi.com/</post/1>'') =
    Inr (py ''https://sxsapi.com/post/1'')"
  by (simp add: clean_url_value py_def isspace_def replace.simps)

lemma demo_title: "strip (py ''Build a widget '') = py ''Build a widget''" "strip (py ''100'') = py ''100''"
  by (simp_all add: strip_def py_def isspace_def)

lemma demo_nonempty:
  "widget_heading \<noteq> []" "py ''* 30d'' \<noteq> []" "py ''- see all'' \<noteq> []"
  by (simp_all add: widget_heading_def py_def)

lemma demo_line_1:
  "sx_line demo_patterns widget_heading ([], []) =
     Inr ([], [(''title'', PStr (py ''Build a widget'')),
               (''url'', PStr (py ''https://sxsapi.com/post/1'')),
               (''price'', PStr (py ''100''))])"
  using demo_not_navigation(1) demo_nonempty(1)
  by (simp add: sx_line_def demo_strips demo_matches demo_link demo_title bind_def)

lemma demo_line_2:
  "sx_line demo_patterns (py ''* 30d'')
     ([], [(''title'', PStr (py ''Build a widget'')),
           (''url'', PStr (py ''https://sxsapi.com/post/1'')),
           (''price'', PStr (py ''100''))]) =
     Inr ([], [(''title'', PStr (py ''Build a widget'')),
               (''url'', PStr (py ''https://sxsapi.com/post/1'')),
               (''price'', PStr (py ''100'')), (''duration'', PStr (py ''30d''))])"
  using demo_not_navigation(2) demo_nonempty(2)
  by (simp add: sx_line_def demo_strips demo_matches)

lemma demo_line_3:
  "sx_line demo_patterns (py ''- see all'') state = Inr state"
  using demo_not_navigation(3) demo_nonempty(3)
  by (cases state) (simp add: sx_line_def demo_strips demo_matches)

lemma sx_links_demo:
  "sx_extract_project_links demo_patterns demo_markdown =
     Inr [[(''title'', PStr (py ''Build a widget'')),
           (''url'', PStr (py ''https://sxsapi.com/post/1'')),
           (''price'', PStr (py ''100'')), (''duration'', PStr (py ''30d''))]]"
  by (simp add: sx_extract_project_links_def demo_lines demo_line_1 demo_line_2 demo_line_3
      bind_def)

lemma headings_demo:
  "filter (heading demo_patterns) (split_on 10 demo_markdown) = [widget_heading]"
  using demo_not_navigation(1) demo_nonempty(1)
  by (simp add: demo_lines heading_def demo_strips demo_matches)

text \<open>
  Claim C7, as stated, fails in its non-emptiness part: the code tests that the keys are
  there (\<open>all(key in project for key in ['url', 'title'])\<close>), not that their values
  are non-empty. A container whose title link has a blank \<open><b>\<close> is emitted with the
  empty title.
\<close>

theorem discovery_emits_empty_title:
  "y_extract_project_links demo_int [blank_title_block] =
     [[(''url'', PStr (py ''https://www.yuanjisong.com/job/1'')), (''title'', PStr [])]] \<and>
   get (hd (y_extract_project_links demo_int [blank_title_block])) ''title'' = PStr []"
  by (simp add: y_project_blank has_key_def get_def)

text \<open>
  Claim C7, amended. For every input, every element of the discovery output has both a
  \<open>title\<close> key and a \<open>url\<close> key, and the output is no longer than the number of
  structural blocks scanned: the containers for yuanjisong, the heading lines for
  sxsapi (whenever its scan returns). A block that lacks either key is not emitted.
\<close>

theorem discovery_has_title_and_url_keys:
  "(\<forall>p\<in>set (y_extract_project_links int_of containers).
       has_key p ''url'' \<and> has_key p ''title'') \<and>
   length (y_extract_project_links int_of containers) \<le> length containers \<and>
   (\<forall>ps. sx_extract_project_links re md = Inr ps \<longrightarrow>
       (\<forall>p\<in>set ps. has_key p ''url'' \<and> has_key p ''title'') \<and>
       length ps \<le> length (filter (heading re) (split_on 10 md)))"
proof (intro conjI allI impI)
  show "\<forall>p\<in>set (y_extract_project_links int_of containers).
       has_key p ''url'' \<and> has_key p ''title''"
    by (rule y_links_keys)
  show "length (y_extract_project_links int_of containers) \<le> length containers"
    by (rule y_links_length)
next
  fix ps assume run: "sx_extract_project_links re md = Inr ps"
  then obtain projects current where
    lines: "sx_lines re (split_on 10 md) ([], []) = Inr (projects, current)"
    and ps: "ps = (if current \<noteq> [] then projects @ [current] else projects)"
    by (auto simp: sx_extract_project_links_def bind_def split: sum.splits prod.splits)
  have "scan_inv ([], [])" by (simp add: scan_inv_def)
  from sx_lines_inv [OF lines this]
  have inv: "scan_inv (projects, current)"
    and cnt: "scan_count (projects, current) \<le> length (filter (heading re) (split_on 10 md))"
    by (simp_all add: scan_count_def)
  from inv ps show "\<forall>p\<in>set ps. has_key p ''url'' \<and> has_key p ''title''"
    by (auto simp: scan_inv_def found_def)
  from cnt ps show "length ps \<le> length (filter (heading re) (split_on 10 md))"
    by (auto simp: scan_count_def)
qed

theorem discovery_has_title_and_url_keys_witness:
  "y_extract_project_links demo_int [widget_block, untitled_block] =
     [[(''url'', PStr (py ''https://www.yuanjisong.com/job/1'')),
       (''title'', PStr (py ''Build a widget'')), (''price'', PInt 100)]] \<and>
   length (y_extract_project_links demo_int [widget_block, untitled_block]) \<le> 2 \<and>
   sx_extract_project_links demo_patterns demo_markdown =
     Inr [[(''title'', PStr (py ''Build a widget'')),
           (''url'', PStr (py ''https://sxsapi.com/post/1'')),
           (''price'', PStr (py ''100'')), (''duration'', PStr (py ''30d''))]] \<and>
   length [[(''title'', PStr (py ''Build a widget'')),
           (''url'', PStr (py ''https://sxsapi.com/post/1'')),
           (''price'', PStr (py ''100'')), (''duration'', PStr (py ''30d''))]] \<le>
     length (filter (heading demo_patterns) (split_on 10 demo_markdown))"
proof -
  have y: "y_extract_project_links demo_int [widget_block, untitled_block] =
     [[(''url'', PStr (py ''https://www.yuanjisong.com/job/1'')),
       (''title'', PStr (py ''Build a widget'')), (''price'', PInt 100)]]"
    by (simp add: y_project_widget y_project_untitled has_key_def)
  note inst = discovery_has_title_and_url_keys
    [where int_of = demo_int and containers = "[widget_block, untitled_block]"
       and re = demo_patterns and md = demo_markdown]
  from inst have "length (y_extract_project_links demo_int [widget_block, untitled_block]) \<le>
      length [widget_block, untitled_block]"
    by blast
  then have l: "length (y_extract_project_links demo_int [widget_block, untitled_block]) \<le> 2"
    by simp
  from inst sx_links_demo have
    "length [[(''title'', PStr (py ''Build a widget'')),
           (''url'', PStr (py ''https://sxsapi.com/post/1'')),
           (''price'', PStr (py ''100'')), (''duration'', PStr (py ''30d''))]] \<le>
     length (filter (heading demo_patterns) (split_on 10 demo_markdown))"
    by blast
  with y l sx_links_demo show ?thesis by blast
qed

section \<open>Candidates whose detail page yields nothing\<close>

text \<open>
  For yuanjisong every candidate of a page comes back from the page cycle, so a page on
  which discovery finds candidates makes \<open>scrape_page\<close> return a non-empty list, and
  the pagination loop stops at the first page without candidates.
\<close>

lemma y_task_nonempty:
  assumes "has_key p ''url''"
  shows "\<exists>e. y_scrape_detail_page xd p f = Inr e \<and> e \<noteq> []"
proof -
  have "\<exists>e. y_scrape_detail_page xd p f = Inr e \<and> has_key e ''url''"
    using assms
    by (auto simp: y_scrape_detail_page_def Let_def has_key_keys keys_update
        split: arun.splits option.splits)
  then obtain e where e: "y_scrape_detail_page xd p f = Inr e" "has_key e ''url''" by blast
  from e(2) have "e \<noteq> []" by (auto simp: has_key_def)
  with e(1) show ?thesis by blast
qed

lemma process_results_length:
  "\<forall>p\<in>set ps. has_key p ''url'' \<Longrightarrow>
   length (process_results (detail_tasks xd fetch i ps)) = length ps"
proof (induction ps arbitrary: i)
  case Nil
  show ?case by simp
next
  case (Cons p ps)
  from Cons.prems have "has_key p ''url''" by simp
  from y_task_nonempty [OF this, of xd "fetch i"] obtain e where
    "y_scrape_detail_page xd p (fetch i) = Inr e" "e \<noteq> []" by blast
  with Cons show ?case by simp
qed

lemma y_scrape_page_nonempty:
  assumes lp: "list_page (env page) = Returns (Some res)" "html res \<noteq> []"
      "xl (html res) = Inr projects"
    and ne: "projects \<noteq> []"
    and urls: "\<forall>p\<in>set projects. has_key p ''url''"
  shows "\<exists>ds. fst (y_scrape_page xl xd env page st) = Inr ds \<and> ds \<noteq> []"
proof (cases "list_all (finished (env page)) [0..<length projects]")
  case True
  let ?ds = "process_results (detail_tasks xd (detail_page (env page)) 0 projects)"
  from True lp have "fst (y_scrape_page xl xd env page st) = Inr ?ds"
    by (simp add: y_scrape_page_def Let_def)
  moreover from process_results_length [OF urls, of xd "detail_page (env page)" 0] ne
  have "?ds \<noteq> []" by auto
  ultimately show ?thesis by blast
next
  case False
  let ?cur = "projects_at_deadline xd (detail_page (env page)) (finished (env page)) 0 projects"
  have keys: "\<forall>p\<in>set ?cur. has_key p ''url''"
    using urls by (rule projects_at_deadline_has_key)
  from timeout_fill_spec [OF keys, of "[]"] obtain ds where
    fill: "timeout_fill [] ?cur = Inr ds"
    and all: "\<forall>p\<in>set ?cur. \<exists>d\<in>set ds. get d ''url'' = get p ''url''"
    by blast
  from ne have "?cur \<noteq> []"
    using length_projects_at_deadline [of xd "detail_page (env page)" "finished (env page)" 0 projects]
    by auto
  with all have "ds \<noteq> []" by (cases ?cur) auto
  moreover from False lp fill have "fst (y_scrape_page xl xd env page st) = Inr ds"
    by (simp add: y_scrape_page_def)
  ultimately show ?thesis by blast
qed

lemma y_scrape_page_empty:
  assumes "list_page (env page) = Returns (Some res)" "html res \<noteq> []" "xl (html res) = Inr []"
  shows "fst (y_scrape_page xl xd env page st) = Inr []"
  using assms by (simp add: y_scrape_page_def Let_def)

lemma y_scrape_stops_at_empty_discovery:
  assumes p1: "list_page (env 1) = Returns (Some r1)" "html r1 \<noteq> []" "xl (html r1) = Inr c1"
      "c1 \<noteq> []" "\<forall>p\<in>set c1. has_key p ''url''"
    and p2: "list_page (env 2) = Returns (Some r2)" "html r2 \<noteq> []" "xl (html r2) = Inr c2"
      "c2 \<noteq> []" "\<forall>p\<in>set c2. has_key p ''url''"
    and p3: "list_page (env 3) = Returns (Some r3)" "html r3 \<noteq> []" "xl (html r3) = Inr []"
  shows "\<exists>l1 l2 st'. l1 \<noteq> [] \<and> l2 \<noteq> [] \<and>
           fst (y_scrape_page xl xd env 1 st) = Inr l1 \<and>
           fst (y_scrape_page xl xd env 2 st) = Inr l2 \<and>
           scrape (y_scrape_page xl xd env) 10 final_ok st = Some (l1 @ l2, [1, 2, 3], st') \<and>
           (final_ok \<longrightarrow> output_file st' = Some (l1 @ l2))"
proof -
  let ?sp = "y_scrape_page xl xd env"
  let ?r = "\<lambda>p. fst (?sp p st)"
  have res: "\<And>p s. fst (?sp p s) = ?r p" by (rule y_scrape_page_fst)
  from y_scrape_page_nonempty [where env = env and page = 1 and xl = xl, OF p1, of xd st]
  obtain l1 where
    l1: "?r 1 = Inr l1" "l1 \<noteq> []" by blast
  from y_scrape_page_nonempty [where env = env and page = 2 and xl = xl, OF p2, of xd st]
  obtain l2 where
    l2: "?r 2 = Inr l2" "l2 \<noteq> []" by blast
  have l3: "?r 3 = Inr []"
    by (rule y_scrape_page_empty [where env = env and page = 3 and xl = xl, OF p3])
  from scrape_stops_at_empty_page [of ?sp ?r, OF res l1 l2 l3, of final_ok st]
  obtain st' where "scrape ?sp 10 final_ok st = Some (l1 @ l2, [1, 2, 3], st')"
    "final_ok \<longrightarrow> output_file st' = Some (l1 @ l2)"
    by blast
  with l1 l2 show ?thesis by blast
qed

lemma hello_page_1:
  "sx_scrape_page demo_links demo_details hello_env 1 st = (Inr [], st\<lparr>output_file := Some []\<rparr>)"
  by (simp add: sx_scrape_page_def hello_env_def fetched_def demo_links_def demo_details_def
      py_def sx_enrich_def has_key_def job1_def save_results_def)

lemma y_hello_page_1:
  "y_scrape_page demo_links demo_details y_hello_env 1 st =
     (Inr [job1], st\<lparr>output_file := Some [job1]\<rparr>)"
  by (simp add: y_scrape_page_def y_hello_env_def fetched_def demo_links_def demo_details_def
      py_def y_scrape_detail_page_def has_key_def job1_def save_results_def Let_def)

lemma y_hello_page_2:
  "y_scrape_page demo_links demo_details y_hello_env 2 st =
     (Inr [job2], st\<lparr>output_file := Some [job2]\<rparr>)"
  by (simp add: y_scrape_page_def y_hello_env_def fetched_def demo_links_def demo_details_def
      py_def y_scrape_detail_page_def has_key_def job2_def save_results_def Let_def)

lemma y_hello_page_3:
  "y_scrape_page demo_links demo_details y_hello_env 3 st = (Inr [], st\<lparr>output_file := Some []\<rparr>)"
  by (simp add: y_scrape_page_def y_hello_env_def fetched_def demo_links_def py_def
      save_results_def Let_def)

lemma hello_loop:
  "scrape_loop (sx_scrape_page demo_links demo_details hello_env) 10 1 [] [] st0 =
     Some ([], [1], \<lparr>output_file = Some []\<rparr>)"
  by (subst scrape_loop.simps, subst hello_page_1) (simp add: st0_def)

lemma y_hello_loop:
  "scrape_loop (y_scrape_page demo_links demo_details y_hello_env) 10 1 [] [] st0 =
     Some ([job1, job2], [1, 2, 3], \<lparr>output_file = Some []\<rparr>)"
proof -
  let ?sp = "y_scrape_page demo_links demo_details y_hello_env"
  have "scrape_loop ?sp 10 1 [] [] st0 =
      scrape_loop ?sp 10 2 [job1] [1] (st0\<lparr>output_file := Some [job1]\<rparr>)"
    by (subst scrape_loop.simps, subst y_hello_page_1) (auto simp: numeral_2_eq_2 job1_def)
  also have "\<dots> = scrape_loop ?sp 10 3 [job1, job2] [1, 2] (st0\<lparr>output_file := Some [job2]\<rparr>)"
    by (subst scrape_loop.simps, subst y_hello_page_2)
      (auto simp: numeral_2_eq_2 numeral_3_eq_3 job2_def)
  also have "\<dots> = Some ([job1, job2], [1, 2, 3], \<lparr>output_file = Some []\<rparr>)"
    by (subst scrape_loop.simps, subst y_hello_page_3) (simp add: st0_def)
  finally show ?thesis .
qed

text \<open>
  Claim C6, at the input where the code departs from it. For the candidate \<open>job1\<close> and
  a detail page whose markup is not empty but from which nothing is extracted
  (\<open>d = {}\<close>), the sxsapi loop body appends no record at all, so there is no enriched
  record whose keys could include the candidate's; \<open>_scrape_detail_page\<close> of
  yuanjisong returns the candidate on the same input. This is the defect of claim C1.
\<close>

theorem sx_enrich_yields_no_record:
  "has_key job1 ''url'' \<and>
   demo_details (py ''hello'') = [] \<and>
   sx_enrich demo_details job1 (fetched (py ''hello'')) = Inr None \<and>
   y_scrape_detail_page demo_details job1 (fetched (py ''hello'')) = Inr job1"
  by (simp add: sx_enrich_def y_scrape_detail_page_def fetched_def demo_details_def py_def
      has_key_def job1_def)

text \<open>
  Claim C3, at the input where the code departs from it. On a site whose pages 1 and 2
  each have one discovered candidate and whose page 3 has none, with detail pages that
  yield nothing, the sxsapi run with \<open>max_pages = 10\<close> gets the empty list from
  \<open>scrape_page\<close> for page 1 (the candidate is dropped, the defect of claim C1), stops
  there without asking for pages 2 and 3, and returns and stores nothing. The
  yuanjisong run on the same site goes through pages 1, 2 and 3 and returns the
  listings of pages 1 and 2.
\<close>

theorem scrape_stops_at_page_one_when_details_are_empty:
  "demo_links (py ''page one'') = Inr [job1] \<and>
   demo_links (py ''page two'') = Inr [job2] \<and>
   demo_links (py ''no more'') = Inr [] \<and>
   demo_details (py ''hello'') = [] \<and>
   scrape (sx_scrape_page demo_links demo_details hello_env) 10 True st0 =
     Some ([], [1], \<lparr>output_file = Some []\<rparr>) \<and>
   scrape (y_scrape_page demo_links demo_details y_hello_env) 10 True st0 =
     Some ([job1, job2], [1, 2, 3], \<lparr>output_file = Some [job1, job2]\<rparr>)"
proof -
  have a: "demo_links (py ''page one'') = Inr [job1] \<and>
      demo_links (py ''page two'') = Inr [job2] \<and>
      demo_links (py ''no more'') = Inr [] \<and> demo_details (py ''hello'') = []"
    by (simp add: demo_links_def demo_details_def py_def)
  have b: "scrape (sx_scrape_page demo_links demo_details hello_env) 10 True st0 =
      Some ([], [1], \<lparr>output_file = Some []\<rparr>)"
    using hello_loop by (simp add: scrape_def save_results_def)
  have c: "scrape (y_scrape_page demo_links demo_details y_hello_env) 10 True st0 =
      Some ([job1, job2], [1, 2, 3], \<lparr>output_file = Some [job1, job2]\<rparr>)"
    using y_hello_loop by (simp add: scrape_def save_results_def)
  from a b c show ?thesis by blast
qed

section \<open>Properties of \<open>extract_project_details\<close>\<close>

text \<open>
  Which keys an extractor binds. For sxsapi every assignment is guarded by its match;
  for yuanjisong a row adds at most the field of the label it carries, and leaves the
  title alone.
\<close>

lemma has_key_Nil: "\<not> has_key [] k"
  by (simp add: has_key_def)

lemma has_key_set_if_matched:
  "has_key (set_if_matched key m f details) k \<longleftrightarrow> (k = key \<and> m \<noteq> None) \<or> has_key details k"
  by (cases m) (auto simp: set_if_matched_def has_key_update)

lemma y_number_keys:
  "y_number int_of isdigit key value_text details = Inr details' \<Longrightarrow>
   has_key details' k \<longleftrightarrow> k = key \<or> has_key details k"
  by (auto simp: y_number_def has_key_update split: option.splits)

lemma y_info_row_keys:
  assumes "y_info_row int_of isdigit row details = Inr details'" "has_key details' k"
  shows "has_key details k \<or> (\<exists>l. (k, l) \<in> set field_labels \<and> labelled_with l row)"
proof (cases "label_elem row")
  case None
  with assms show ?thesis by (simp add: y_info_row_def)
next
  case (Some label_text)
  note lab = Some
  show ?thesis
  proof (cases "value_elem row")
    case None
    with assms lab show ?thesis by (simp add: y_info_row_def Let_def)
  next
    case (Some v)
    let ?label = "rstrip_char 65306 (strip label_text)"
    have lw: "labelled_with l row \<longleftrightarrow> contains l ?label" for l
      by (simp add: labelled_with_def lab)
    have fin: "has_key details k \<or> (\<exists>l. (k, l) \<in> set field_labels \<and> labelled_with l row)"
      if "(key, L) \<in> set field_labels" "contains L ?label"
        "has_key details' k \<longrightarrow> k = key \<or> has_key details k" for key L
      using that assms(2) lw by blast
    have run: "(if contains [21512, 20316, 26041, 24335] ?label
        then Inr (AList.update ''cooperation_type'' (PStr (strip v)) details)
        else if contains [39044, 20272, 26085, 34218] ?label
        then y_number int_of isdigit ''daily_salary'' (strip v) details
        else if contains [39044, 20272, 24635, 20215] ?label
        then y_number int_of isdigit ''total_price'' (strip v) details
        else if contains [39044, 20272, 24037, 26102] ?label
        then y_number int_of isdigit ''duration'' (strip v) details
        else if contains [25152, 22312, 21306, 22495] ?label
        then Inr (AList.update ''location'' (PStr (strip v)) details)
        else Inr details) = Inr details'"
      using assms(1) lab Some by (simp add: y_info_row_def Let_def)
    show ?thesis
    proof (cases "contains [21512, 20316, 26041, 24335] ?label")
      case True
      with run have "details' = AList.update ''cooperation_type'' (PStr (strip v)) details"
        by simp
      then have "has_key details' k \<longrightarrow> k = ''cooperation_type'' \<or> has_key details k"
        by (simp add: has_key_update)
      with True show ?thesis by (intro fin) (simp_all add: field_labels_def)
    next
      case n1: False
      show ?thesis
      proof (cases "contains [39044, 20272, 26085, 34218] ?label")
        case True
        with run n1 have "y_number int_of isdigit ''daily_salary'' (strip v) details = Inr details'"
          by simp
        from y_number_keys [OF this]
        have "has_key details' k \<longrightarrow> k = ''daily_salary'' \<or> has_key details k" by simp
        with True show ?thesis by (intro fin) (simp_all add: field_labels_def)
      next
        case n2: False
        show ?thesis
        proof (cases "contains [39044, 20272, 24635, 20215] ?label")
          case True
          with run n1 n2
          have "y_number int_of isdigit ''total_price'' (strip v) details = Inr details'"
            by simp
          from y_number_keys [OF this]
          have "has_key details' k \<longrightarrow> k = ''total_price'' \<or> has_key details k" by simp
          with True show ?thesis by (intro fin) (simp_all add: field_labels_def)
        next
          case n3: False
          show ?thesis
          proof (cases "contains [39044, 20272, 24037, 26102] ?label")
            case True
            with run n1 n2 n3
            have "y_number int_of isdigit ''duration'' (strip v) details = Inr details'"
              by simp
            from y_number_keys [OF this]
            have "has_key details' k \<longrightarrow> k = ''duration'' \<or> has_key details k" by simp
            with True show ?thesis by (intro fin) (simp_all add: field_labels_def)
          next
            case n4: False
            show ?thesis
            proof (cases "contains [25152, 22312, 21306, 22495] ?label")
              case True
              with run n1 n2 n3 n4
              have "details' = AList.update ''location'' (PStr (strip v)) details"
                by simp
              then have "has_key details' k \<longrightarrow> k = ''location'' \<or> has_key details k"
                by (simp add: has_key_update)
              with True show ?thesis by (intro fin) (simp_all add: field_labels_def)
            next
              case False
              with run n1 n2 n3 n4 have "details' = details" by simp
              with assms(2) show ?thesis by simp
            qed
          qed
        qed
      qed
    qed
  qed
qed

lemma y_info_rows_keys:
  "y_info_rows int_of isdigit rows details = Inr details' \<Longrightarrow> has_key details' k \<Longrightarrow>
   has_key details k \<or> (\<exists>l. (k, l) \<in> set field_labels \<and> list_ex (labelled_with l) rows)"
proof (induction rows arbitrary: details)
  case Nil
  then show ?case by simp
next
  case (Cons row rest)
  from Cons.prems(1) obtain mid where
    mid: "y_info_row int_of isdigit row details = Inr mid"
    and rest: "y_info_rows int_of isdigit rest mid = Inr details'"
    by (auto simp: bind_def split: sum.splits)
  from Cons.IH [OF rest Cons.prems(2)] y_info_row_keys [OF mid] show ?case
    by auto
qed

lemma y_credit_keys:
  "has_key (y_credit int_of credit details) k \<Longrightarrow>
   has_key details k \<or>
   (3 \<le> length credit \<and>
    k \<in> {''employer_projects'', ''employer_reviews'', ''employer_complaints''})"
  by (auto simp: y_credit_def has_key_update split: list.splits option.splits)

lemma map_of_update_other: "k' \<noteq> k \<Longrightarrow> map_of (AList.update k v d) k' = map_of d k'"
  by (simp add: update_conv')

lemma y_number_title:
  "y_number int_of isdigit key value_text details = Inr details' \<Longrightarrow> key \<noteq> ''title'' \<Longrightarrow>
   map_of details' ''title'' = map_of details ''title''"
  by (auto simp: y_number_def map_of_update_other split: option.splits)

lemma y_info_row_title:
  assumes "y_info_row int_of isdigit row details = Inr details'"
  shows "map_of details' ''title'' = map_of details ''title''"
proof (cases "label_elem row")
  case None
  with assms show ?thesis by (simp add: y_info_row_def)
next
  case (Some label_text)
  note lab = Some
  show ?thesis
  proof (cases "value_elem row")
    case None
    with assms lab show ?thesis by (simp add: y_info_row_def Let_def)
  next
    case (Some v)
    from assms lab Some show ?thesis
      unfolding y_info_row_def Let_def
      by (auto simp: map_of_update_other split: if_splits dest: y_number_title)
  qed
qed

lemma y_info_rows_title:
  "y_info_rows int_of isdigit rows details = Inr details' \<Longrightarrow>
   map_of details' ''title'' = map_of details ''title''"
proof (induction rows arbitrary: details)
  case Nil
  then show ?case by simp
next
  case (Cons row rest)
  from Cons.prems obtain mid where
    mid: "y_info_row int_of isdigit row details = Inr mid"
    and rest: "y_info_rows int_of isdigit rest mid = Inr details'"
    by (auto simp: bind_def split: sum.splits)
  from Cons.IH [OF rest] y_info_row_title [OF mid] show ?case by simp
qed

lemma y_credit_title: "map_of (y_credit int_of credit details) ''title'' = map_of details ''title''"
  by (auto simp: y_credit_def map_of_update_other split: list.splits option.splits)

lemma sx_details_keys:
  "has_key (sx_extract_project_details pats md) ''title'' \<longleftrightarrow> title_match pats md \<noteq> None"
  "has_key (sx_extract_project_details pats md) ''price'' \<longleftrightarrow> price_match pats md \<noteq> None"
  "has_key (sx_extract_project_details pats md) ''duration'' \<longleftrightarrow> duration_match pats md \<noteq> None"
  "has_key (sx_extract_project_details pats md) ''deadline'' \<longleftrightarrow> deadline_match pats md \<noteq> None"
  "has_key (sx_extract_project_details pats md) ''description'' \<longleftrightarrow>
     sx_description False [] (split_on 10 md) \<noteq> []"
  "has_key (sx_extract_project_details pats md) ''skills'' \<longleftrightarrow> skills_match pats md \<noteq> None"
  "has_key (sx_extract_project_details pats md) ''cooperation'' \<longleftrightarrow> coop_match pats md \<noteq> None"
  unfolding sx_extract_project_details_def Let_def
  by (simp_all add: has_key_set_if_matched has_key_update has_key_Nil)

lemma field_labels_functional:
  "(k, l) \<in> set field_labels \<Longrightarrow> (k, l') \<in> set field_labels \<Longrightarrow> l' = l"
  by (auto simp: field_labels_def)

lemma field_labels_keys:
  "(k, l) \<in> set field_labels \<Longrightarrow>
   k \<noteq> ''title'' \<and> k \<noteq> ''description'' \<and> k \<noteq> ''employer_projects'' \<and>
   k \<noteq> ''employer_reviews'' \<and> k \<noteq> ''employer_complaints''"
  by (auto simp: field_labels_def)

lemma y_details_cases:
  obtains (raised) "y_extract_project_details int_of isdigit soup = []"
  | (returned) details where
      "y_info_rows int_of isdigit (basic_info_rows soup)
         [(''title'', case h2 soup of None \<Rightarrow> PNone | Some text \<Rightarrow> PStr (strip text))] = Inr details"
      "y_extract_project_details int_of isdigit soup =
         y_credit int_of (credit_list soup)
           (case mobmid_p soup of None \<Rightarrow> details
            | Some text \<Rightarrow> AList.update ''description'' (PStr (strip text)) details)"
proof (cases "y_info_rows int_of isdigit (basic_info_rows soup)
         [(''title'', case h2 soup of None \<Rightarrow> PNone | Some text \<Rightarrow> PStr (strip text))]")
  case (Inl e)
  then have "y_extract_project_details int_of isdigit soup = []"
    by (simp add: y_extract_project_details_def Let_def)
  then show ?thesis by (rule raised)
next
  case (Inr details)
  then have "y_extract_project_details int_of isdigit soup =
         y_credit int_of (credit_list soup)
           (case mobmid_p soup of None \<Rightarrow> details
            | Some text \<Rightarrow> AList.update ''description'' (PStr (strip text)) details)"
    by (simp add: y_extract_project_details_def Let_def)
  with Inr show ?thesis by (rule returned)
qed

lemma y_details_keys:
  assumes "has_key (y_extract_project_details int_of isdigit soup) k"
  shows "k = ''title'' \<or>
     (\<exists>l. (k, l) \<in> set field_labels \<and> list_ex (labelled_with l) (basic_info_rows soup)) \<or>
     (k = ''description'' \<and> mobmid_p soup \<noteq> None) \<or>
     (3 \<le> length (credit_list soup) \<and>
      k \<in> {''employer_projects'', ''employer_reviews'', ''employer_complaints''})"
proof (cases rule: y_details_cases [of int_of isdigit soup])
  case raised
  with assms show ?thesis by (simp add: has_key_Nil)
next
  case (returned details)
  let ?d = "case mobmid_p soup of None \<Rightarrow> details
            | Some text \<Rightarrow> AList.update ''description'' (PStr (strip text)) details"
  from assms returned(2) have "has_key (y_credit int_of (credit_list soup) ?d) k" by simp
  from y_credit_keys [OF this] show ?thesis
  proof
    assume "has_key ?d k"
    then have "has_key details k \<or> (k = ''description'' \<and> mobmid_p soup \<noteq> None)"
      by (cases "mobmid_p soup") (auto simp: has_key_update)
    then show ?thesis
    proof
      assume "has_key details k"
      from y_info_rows_keys [OF returned(1) this]
      have "has_key [(''title'', case h2 soup of None \<Rightarrow> PNone | Some text \<Rightarrow> PStr (strip text))] k \<or>
            (\<exists>l. (k, l) \<in> set field_labels \<and> list_ex (labelled_with l) (basic_info_rows soup))" .
      then show ?thesis by (auto simp: has_key_def split: if_splits)
    qed simp
  qed simp
qed

lemma y_details_title:
  assumes "y_extract_project_details int_of isdigit soup \<noteq> []"
  shows "map_of (y_extract_project_details int_of isdigit soup) ''title'' =
         Some (case h2 soup of None \<Rightarrow> PNone | Some text \<Rightarrow> PStr (strip text))"
proof (cases rule: y_details_cases [of int_of isdigit soup])
  case raised
  with assms show ?thesis by simp
next
  case (returned details)
  from y_info_rows_title [OF returned(1)]
  have "map_of details ''title'' =
          Some (case h2 soup of None \<Rightarrow> PNone | Some text \<Rightarrow> PStr (strip text))" by simp
  then have "map_of (case mobmid_p soup of None \<Rightarrow> details
            | Some text \<Rightarrow> AList.update ''description'' (PStr (strip text)) details) ''title'' =
          Some (case h2 soup of None \<Rightarrow> PNone | Some text \<Rightarrow> PStr (strip text))"
    by (cases "mobmid_p soup") (simp_all add: map_of_update_other)
  with returned(2) show ?thesis by (simp add: y_credit_title)
qed

text \<open>The extractors on the sample pages.\<close>

lemma salary_label:
  "rstrip_char 65306 (strip [39044, 20272, 26085, 34218, 65306]) = [39044, 20272, 26085, 34218]"
  by (simp add: rstrip_char_def strip_def isspace_def)

lemma salary_value: "filter ascii_digit (strip (py ''100 '')) = py ''100''"
  by (simp add: strip_def isspace_def py_def ascii_digit_def)

lemma salary_row:
  "y_info_row demo_int ascii_digit
     \<lparr>label_elem = Some [39044, 20272, 26085, 34218, 65306], value_elem = Some (py ''100 '')\<rparr>
     details = Inr (AList.update ''daily_salary'' (PInt 100) details)"
  by (simp add: y_info_row_def Let_def salary_label y_number_def salary_value demo_int_def)

lemma salary_title: "strip (py ''STM32 firmware'') = py ''STM32 firmware''"
  by (rule strip_id; simp add: py_def isspace_def)

lemma salary_details:
  "y_extract_project_details demo_int ascii_digit salary_soup =
     [(''title'', PStr (py ''STM32 firmware'')), (''daily_salary'', PInt 100)]"
  by (simp add: salary_soup_def y_extract_project_details_def Let_def salary_row bind_def
      salary_title y_credit_def)

lemma salary_unlabelled:
  "\<not> list_ex (labelled_with [25152, 22312, 21306, 22495]) (basic_info_rows salary_soup)"
  "\<not> list_ex (labelled_with [21512, 20316, 26041, 24335]) (basic_info_rows salary_soup)"
  by (simp_all add: salary_soup_def labelled_with_def salary_label)

lemma no_patterns_details: "sx_extract_project_details no_patterns (py ''hello'') = []"
  by (simp add: sx_extract_project_details_def Let_def no_patterns_def set_if_matched_def
      py_def strip_def isspace_def)

text \<open>
  Claim C5, as stated, fails for the title of yuanjisong: \<open>details['title'] = title\<close> is
  not guarded, and \<open>title\<close> is \<open>None\<close> when the page has no \<open>h2\<close>. On the page with no
  \<open>h2\<close> the returned map has the key \<open>title\<close>, bound to \<open>None\<close>.
\<close>

theorem yuanjisong_binds_title_to_null:
  "h2 bare_soup = None \<and>
   y_extract_project_details demo_int ascii_digit bare_soup = [(''title'', PNone)] \<and>
   has_key (y_extract_project_details demo_int ascii_digit bare_soup) ''title'' \<and>
   get (y_extract_project_details demo_int ascii_digit bare_soup) ''title'' = PNone"
  by (simp add: bare_soup_def y_extract_project_details_def y_credit_def has_key_def get_def)

text \<open>
  Claim C5, amended. For sxsapi, each of the seven fields is in the returned map exactly
  when its rule matches: the pattern for \<open>title\<close>, \<open>price\<close>, \<open>duration\<close>, \<open>deadline\<close>,
  \<open>skills\<close> and \<open>cooperation\<close>, a non-empty collected text for \<open>description\<close>. For
  yuanjisong, a field read off the rows is absent when no row carries its label,
  \<open>description\<close> is absent when there is no \<open>.mobmid p\<close>, and the three employer
  counters are absent when there are fewer than three credit links; \<open>title\<close> is the
  exception: it is bound in every map that is not the empty map of the error handler,
  to \<open>None\<close> when there is no \<open>h2\<close>.
\<close>

theorem extraction_omits_unmatched_fields:
  "(has_key (sx_extract_project_details pats md) ''title'' \<longleftrightarrow> title_match pats md \<noteq> None) \<and>
   (has_key (sx_extract_project_details pats md) ''price'' \<longleftrightarrow> price_match pats md \<noteq> None) \<and>
   (has_key (sx_extract_project_details pats md) ''duration'' \<longleftrightarrow>
      duration_match pats md \<noteq> None) \<and>
   (has_key (sx_extract_project_details pats md) ''deadline'' \<longleftrightarrow>
      deadline_match pats md \<noteq> None) \<and>
   (has_key (sx_extract_project_details pats md) ''description'' \<longleftrightarrow>
      sx_description False [] (split_on 10 md) \<noteq> []) \<and>
   (has_key (sx_extract_project_details pats md) ''skills'' \<longleftrightarrow> skills_match pats md \<noteq> None) \<and>
   (has_key (sx_extract_project_details pats md) ''cooperation'' \<longleftrightarrow>
      coop_match pats md \<noteq> None) \<and>
   (\<forall>k l. (k, l) \<in> set field_labels \<and> \<not> list_ex (labelled_with l) (basic_info_rows soup) \<longrightarrow>
      \<not> has_key (y_extract_project_details int_of isdigit soup) k) \<and>
   (mobmid_p soup = None \<longrightarrow>
      \<not> has_key (y_extract_project_details int_of isdigit soup) ''description'') \<and>
   (length (credit_list soup) < 3 \<longrightarrow>
      \<not> has_key (y_extract_project_details int_of isdigit soup) ''employer_projects'' \<and>
      \<not> has_key (y_extract_project_details int_of isdigit soup) ''employer_reviews'' \<and>
      \<not> has_key (y_extract_project_details int_of isdigit soup) ''employer_complaints'') \<and>
   (y_extract_project_details int_of isdigit soup \<noteq> [] \<longrightarrow>
      map_of (y_extract_project_details int_of isdigit soup) ''title'' =
        Some (case h2 soup of None \<Rightarrow> PNone | Some text \<Rightarrow> PStr (strip text)))"
proof -
  note sx = sx_details_keys [of pats md]
  have rows: "\<not> has_key (y_extract_project_details int_of isdigit soup) k"
    if "(k, l) \<in> set field_labels" "\<not> list_ex (labelled_with l) (basic_info_rows soup)" for k l
  proof
    assume "has_key (y_extract_project_details int_of isdigit soup) k"
    from y_details_keys [OF this] field_labels_keys [OF that(1)]
    obtain l' where "(k, l') \<in> set field_labels" "list_ex (labelled_with l') (basic_info_rows soup)"
      by auto
    with field_labels_functional [OF that(1)] that(2) show False by auto
  qed
  have desc: "\<not> has_key (y_extract_project_details int_of isdigit soup) ''description''"
    if "mobmid_p soup = None"
  proof
    assume "has_key (y_extract_project_details int_of isdigit soup) ''description''"
    from y_details_keys [OF this] that show False
      by (auto simp: field_labels_def)
  qed
  have credit: "\<not> has_key (y_extract_project_details int_of isdigit soup) k"
    if "length (credit_list soup) < 3"
      "k \<in> {''employer_projects'', ''employer_reviews'', ''employer_complaints''}" for k
  proof
    assume "has_key (y_extract_project_details int_of isdigit soup) k"
    from y_details_keys [OF this] that show False
      by (auto simp: field_labels_def)
  qed
  have r: "\<forall>k l. (k, l) \<in> set field_labels \<and>
      \<not> list_ex (labelled_with l) (basic_info_rows soup) \<longrightarrow>
      \<not> has_key (y_extract_project_details int_of isdigit soup) k"
    using rows by (intro allI impI) (elim conjE)
  have d: "mobmid_p soup = None \<longrightarrow>
      \<not> has_key (y_extract_project_details int_of isdigit soup) ''description''"
    using desc by (rule impI)
  have c: "length (credit_list soup) < 3 \<longrightarrow>
      \<not> has_key (y_extract_project_details int_of isdigit soup) ''employer_projects'' \<and>
      \<not> has_key (y_extract_project_details int_of isdigit soup) ''employer_reviews'' \<and>
      \<not> has_key (y_extract_project_details int_of isdigit soup) ''employer_complaints''"
    using credit by simp
  have t: "y_extract_project_details int_of isdigit soup \<noteq> [] \<longrightarrow>
      map_of (y_extract_project_details int_of isdigit soup) ''title'' =
        Some (case h2 soup of None \<Rightarrow> PNone | Some text \<Rightarrow> PStr (strip text))"
    using y_details_title [of int_of isdigit soup] by (rule impI)
  from sx r d c t show ?thesis by (intro conjI)
qed

text \<open>
  The amended claim on the page with a title and a daily salary, and on patterns that
  match nothing.
\<close>

theorem extraction_omits_unmatched_fields_witness:
  "y_extract_project_details demo_int ascii_digit salary_soup =
     [(''title'', PStr (py ''STM32 firmware'')), (''daily_salary'', PInt 100)] \<and>
   (''location'', [25152, 22312, 21306, 22495]) \<in> set field_labels \<and>
   \<not> list_ex (labelled_with [25152, 22312, 21306, 22495]) (basic_info_rows salary_soup) \<and>
   \<not> has_key (y_extract_project_details demo_int ascii_digit salary_soup) ''location'' \<and>
   mobmid_p salary_soup = None \<and>
   \<not> has_key (y_extract_project_details demo_int ascii_digit salary_soup) ''description'' \<and>
   length (credit_list salary_soup) < 3 \<and>
   \<not> has_key (y_extract_project_details demo_int ascii_digit salary_soup) ''employer_projects'' \<and>
   y_extract_project_details demo_int ascii_digit salary_soup \<noteq> [] \<and>
   map_of (y_extract_project_details demo_int ascii_digit salary_soup) ''title'' =
     Some (PStr (py ''STM32 firmware'')) \<and>
   title_match no_patterns (py ''hello'') = None \<and>
   sx_extract_project_details no_patterns (py ''hello'') = [] \<and>
   \<not> has_key (sx_extract_project_details no_patterns (py ''hello'')) ''title''"
proof -
  note inst = extraction_omits_unmatched_fields
    [of no_patterns "py ''hello''" salary_soup demo_int ascii_digit]
  have loc: "(''location'', [25152, 22312, 21306, 22495]) \<in> set field_labels"
    by (simp add: field_labels_def)
  have none: "mobmid_p salary_soup = None" "length (credit_list salary_soup) < 3"
    "h2 salary_soup = Some (py ''STM32 firmware'')"
    by (simp_all add: salary_soup_def)
  have tm: "title_match no_patterns (py ''hello'') = None"
    by (simp add: no_patterns_def)
  have ne: "y_extract_project_details demo_int ascii_digit salary_soup \<noteq> []"
    by (simp add: salary_details)
  note sx1 = inst [THEN conjunct1]
  note ys = inst [THEN conjunct2, THEN conjunct2, THEN conjunct2, THEN conjunct2,
    THEN conjunct2, THEN conjunct2, THEN conjunct2]
  note y1 = ys [THEN conjunct1, rule_format]
  note y2 = ys [THEN conjunct2, THEN conjunct1, rule_format]
  note y3 = ys [THEN conjunct2, THEN conjunct2, THEN conjunct1, rule_format]
  note y4 = ys [THEN conjunct2, THEN conjunct2, THEN conjunct2, rule_format]
  from y1 [OF conjI [OF loc salary_unlabelled(1)]]
  have a: "\<not> has_key (y_extract_project_details demo_int ascii_digit salary_soup) ''location''" .
  from y2 [OF none(1)]
  have b: "\<not> has_key (y_extract_project_details demo_int ascii_digit salary_soup) ''description''" .
  from y3 [OF none(2)]
  have c: "\<not> has_key (y_extract_project_details demo_int ascii_digit salary_soup) ''employer_projects''"
    by (rule conjunct1)
  from y4 [OF ne]
  have "map_of (y_extract_project_details demo_int ascii_digit salary_soup) ''title'' =
     Some (case h2 salary_soup of None \<Rightarrow> PNone | Some text \<Rightarrow> PStr (strip text))" .
  then have d: "map_of (y_extract_project_details demo_int ascii_digit salary_soup) ''title'' =
     Some (PStr (py ''STM32 firmware''))"
    by (simp add: none(3) salary_title)
  from sx1 tm
  have e: "\<not> has_key (sx_extract_project_details no_patterns (py ''hello'')) ''title''"
    by simp
  from salary_details loc salary_unlabelled(1) a none(1) b none(2) c ne d tm
    no_patterns_details e
  show ?thesis by (intro conjI)
qed

end
